theory Spec2Isabelle
  imports Main "HOL-Library.Multiset"
begin

section \<open>Data model (lib/types.ts)\<close>

text \<open>
  The records follow the TypeScript types of the repository. A field called \<open>id\<close> in the
  source is prefixed with the name of its type, since \<open>id\<close> is the identity function of
  HOL; \<open>value\<close>, \<open>position\<close>, \<open>side\<close> and \<open>tile\<close> occur in more than one type and are
  prefixed where they would collide. Pip values are JavaScript numbers that only ever hold
  small integers; they are modelled as \<open>int\<close>.
\<close>

record DominoTile =
  tile_id :: string
  left :: int
  right :: int
  isDouble :: bool

record Position =
  pos_x :: int
  pos_y :: int

datatype Orientation = horizontal | vertical

record PlacedTile =
  tile :: DominoTile
  position :: Position
  orientation :: Orientation
  rotation :: int

record Player =
  player_id :: string
  name :: string
  tiles :: "DominoTile list"
  score :: int
  isAI :: bool
  isReady :: bool

datatype Side = SLeft | SRight | STop | SBottom

record BoardEnd =
  end_value :: int
  end_position :: Position
  end_side :: Side

datatype GameMode = waiting | playing | finished

record GameState =
  game_id :: string
  players :: "Player list"
  currentPlayerIndex :: nat
  board :: "PlacedTile list"
  boneyard :: "DominoTile list"
  boardEnds :: "BoardEnd list"
  winner :: "string option"
  isGameOver :: bool
  turnsPassed :: nat
  gameMode :: GameMode
  rematchRequests :: "string list"

text \<open>
  A submitted move. \<open>side\<close> is typed \<open>'left' | 'right'\<close> in the source; the model keeps
  the four strings a board end may carry, so that the comparisons of the handler between
  \<open>move.side\<close> and \<open>end.side\<close> are comparisons inside one type. \<open>pass\<close> is optional in
  the source; an absent flag is falsy, here \<open>False\<close>.
\<close>

record GameMove =
  playerId :: string
  move_tile :: DominoTile
  move_side :: Side
  pass :: bool

section \<open>Tile set and dealing (server.mjs, lines 40--79)\<close>

text \<open>
  The decimal text of a loop counter inside the template literal
  \<open>`${i}-${j}`\<close>.
\<close>

definition digit_char :: "nat \<Rightarrow> char" where
  "digit_char n = ''0123456789'' ! n"

fun string_of_nat :: "nat \<Rightarrow> string" where
  "string_of_nat n =
     (if n < 10 then [digit_char n] else string_of_nat (n div 10) @ [digit_char (n mod 10)])"

text \<open>The object pushed by the inner loop of \<open>generateDominoSet\<close> for counters \<open>i\<close>, \<open>j\<close>.\<close>

definition mkTile :: "nat \<Rightarrow> nat \<Rightarrow> DominoTile" where
  "mkTile i j =
     \<lparr>tile_id = string_of_nat i @ ''-'' @ string_of_nat j,
      left = int i, right = int j, isDouble = (i = j)\<rparr>"






section \<open>Legal placements (lib/gameLogic.ts, \<open>canPlaceTile\<close> and \<open>canPlayerMove\<close>)\<close>

definition canPlaceTile :: "DominoTile \<Rightarrow> int \<Rightarrow> bool" where
  "canPlaceTile t endValue \<longleftrightarrow> left t = endValue \<or> right t = endValue"

definition canPlayerMove :: "Player \<Rightarrow> BoardEnd list \<Rightarrow> bool" where
  "canPlayerMove player ends =
     (if length ends = 0 then True
      else list_ex (\<lambda>t. list_ex (\<lambda>e. canPlaceTile t (end_value e)) ends) (tiles player))"

text \<open>\<open>tiles.reduce((sum, tile) => sum + tile.left + tile.right, 0)\<close>\<close>

definition calculateScore :: "DominoTile list \<Rightarrow> int" where
  "calculateScore ts = foldl (\<lambda>sum t. sum + left t + right t) 0 ts"

section \<open>The socket handlers of server.mjs\<close>

text \<open>
  What a handler sends back. The constructors of \<open>Rejection\<close> stand for the messages of
  the source: \<open>NotYourTurn\<close> for \<open>'invalid-move', 'Not your turn'\<close>, \<open>TileNotInHand\<close> for
  \<open>'invalid-move', 'Tile not found'\<close>, \<open>InvalidSide\<close> for \<open>'invalid-move', 'Invalid side'\<close>,
  \<open>TileDoesNotMatch\<close> for \<open>'invalid-move', 'Tile does not match board end'\<close>,
  \<open>NoTilesToDraw\<close> for \<open>'invalid-move', 'No tiles left to draw'\<close>, \<open>GameNotFound\<close> for
  \<open>'error', 'Game not found'\<close> and \<open>PlayerNotFound\<close> for \<open>'error', 'Player not found'\<close>.
  \<open>Broadcast\<close> is the accepted path, which ends in
  \<open>io.to(roomId).emit('game-state-updated', gameState)\<close>. \<open>Threw\<close> is the TypeError of
  reading \<open>.id\<close> of \<open>undefined\<close> when \<open>currentPlayerIndex\<close> is not an index of
  \<open>players\<close>. \<open>Silent\<close> is the bare \<open>return\<close> of the draw handler for an unknown room.
\<close>

datatype Rejection =
  NotYourTurn | TileNotInHand | InvalidSide | TileDoesNotMatch | NoTilesToDraw
  | GameNotFound | PlayerNotFound

datatype Outcome = Broadcast | Rejected Rejection | Threw | Silent

text \<open>\<open>Array.prototype.findIndex\<close>, with \<open>None\<close> for \<open>-1\<close>.\<close>

fun findIndex :: "('a \<Rightarrow> bool) \<Rightarrow> 'a list \<Rightarrow> nat option" where
  "findIndex P [] = None"
| "findIndex P (x # xs) =
     (if P x then Some 0 else (case findIndex P xs of None \<Rightarrow> None | Some i \<Rightarrow> Some (Suc i)))"

text \<open>\<open>xs.splice(i, 1)\<close>: the list without its element at index \<open>i\<close>.\<close>

definition splice1 :: "nat \<Rightarrow> 'a list \<Rightarrow> 'a list" where
  "splice1 i xs = take i xs @ drop (Suc i) xs"

text \<open>
  The scan of the pass branch over the players: \<open>lowestScore\<close> starts at \<open>Infinity\<close>
  (here \<open>None\<close>) and \<open>winnerId\<close> at the empty string; a player replaces the pair only with
  a strictly smaller score.
\<close>

definition lowest_step :: "int option \<times> string \<Rightarrow> Player \<Rightarrow> int option \<times> string" where
  "lowest_step acc p =
     (let score = calculateScore (tiles p)
      in if (case fst acc of None \<Rightarrow> True | Some lowestScore \<Rightarrow> score < lowestScore)
         then (Some score, player_id p) else acc)"

definition lowestScoreWinner :: "Player list \<Rightarrow> string" where
  "lowestScoreWinner ps = snd (foldl lowest_step (None, []) ps)"

text \<open>The pass branch of the \<open>make-move\<close> handler (lines 258--279).\<close>

definition pass_turn :: "GameState \<Rightarrow> GameState" where
  "pass_turn gs =
     (let gs1 = gs\<lparr>currentPlayerIndex := (currentPlayerIndex gs + 1) mod length (players gs)\<rparr>;
          gs2 = gs1\<lparr>turnsPassed := turnsPassed gs1 + 1\<rparr>
      in if turnsPassed gs2 \<ge> length (players gs2)
         then gs2\<lparr>isGameOver := True,
                  winner := Some (lowestScoreWinner (players gs2)),
                  gameMode := finished\<rparr>
         else gs2)"

text \<open>
  The validation of a placement against the board ends (lines 288--304): \<open>None\<close> when the
  move passes, otherwise the rejection.
\<close>

definition check_placement :: "GameState \<Rightarrow> GameMove \<Rightarrow> Rejection option" where
  "check_placement gs mv =
     (if length (boardEnds gs) > 0 then
        (case find (\<lambda>e. (move_side mv = SLeft \<and> end_side e = SLeft) \<or>
                        (move_side mv = SRight \<and> end_side e = SRight)) (boardEnds gs) of
           None \<Rightarrow> Some InvalidSide
         | Some targetEnd \<Rightarrow>
             (let canPlace = (left (move_tile mv) = end_value targetEnd \<or>
                              right (move_tile mv) = end_value targetEnd)
              in if \<not> canPlace then Some TileDoesNotMatch else None))
      else None)"

text \<open>
  Lines 311--357: the orientation of the tile and its position. On a non-empty board
  \<open>matchValue\<close> is \<open>targetEnd?.value || 0\<close>: the value of the first end on the side of the
  move, and 0 when there is none (a value of 0 is falsy and gives 0 as well).
\<close>

definition matchValue :: "GameState \<Rightarrow> GameMove \<Rightarrow> int" where
  "matchValue gs mv =
     (case find (\<lambda>e. end_side e = move_side mv) (boardEnds gs) of
        None \<Rightarrow> 0 | Some targetEnd \<Rightarrow> end_value targetEnd)"

definition needsFlip :: "GameState \<Rightarrow> GameMove \<Rightarrow> bool" where
  "needsFlip gs mv =
     (if move_side mv = SRight
      then right (move_tile mv) = matchValue gs mv \<and> left (move_tile mv) \<noteq> matchValue gs mv
      else left (move_tile mv) = matchValue gs mv \<and> right (move_tile mv) \<noteq> matchValue gs mv)"

definition tileToPlace :: "GameState \<Rightarrow> GameMove \<Rightarrow> DominoTile" where
  "tileToPlace gs mv =
     (if length (board gs) = 0 then move_tile mv
      else if needsFlip gs mv
           then (move_tile mv)\<lparr>left := right (move_tile mv), right := left (move_tile mv)\<rparr>
           else move_tile mv)"

definition tilePosition :: "GameState \<Rightarrow> GameMove \<Rightarrow> Position" where
  "tilePosition gs mv =
     (if length (board gs) = 0 then \<lparr>pos_x = 400, pos_y = 300\<rparr>
      else if move_side mv = SRight
           then (let lastTile = last (board gs)
                 in \<lparr>pos_x = pos_x (position lastTile) + 65, pos_y = pos_y (position lastTile)\<rparr>)
           else (let firstTile = hd (board gs)
                 in \<lparr>pos_x = pos_x (position firstTile) - 65, pos_y = pos_y (position firstTile)\<rparr>))"

text \<open>
  Lines 306--399: the accepted placement. \<open>pi\<close> is the index of the object \<open>player\<close> found
  by \<open>players.find\<close>, \<open>tileIndex\<close> the index found in its hand; the handler mutates the
  hand of that object in place.
\<close>

definition place_tile :: "GameState \<Rightarrow> nat \<Rightarrow> nat \<Rightarrow> GameMove \<Rightarrow> GameState" where
  "place_tile gs pi tileIndex mv =
     (let player = (players gs ! pi)\<lparr>tiles := splice1 tileIndex (tiles (players gs ! pi))\<rparr>;
          placedTile = \<lparr>tile = tileToPlace gs mv, position = tilePosition gs mv,
                        orientation = horizontal, rotation = 0\<rparr>;
          newBoard = (if move_side mv = SRight then board gs @ [placedTile]
                      else placedTile # board gs);
          newEnds =
            (if length newBoard = 1
             then [\<lparr>end_value = left (tile placedTile), end_position = position placedTile,
                     end_side = SLeft\<rparr>,
                   \<lparr>end_value = right (tile placedTile), end_position = position placedTile,
                     end_side = SRight\<rparr>]
             else (let leftTile = hd newBoard; rightTile = last newBoard
                   in [\<lparr>end_value = left (tile leftTile), end_position = position leftTile,
                         end_side = SLeft\<rparr>,
                       \<lparr>end_value = right (tile rightTile), end_position = position rightTile,
                         end_side = SRight\<rparr>]));
          gs1 = gs\<lparr>players := (players gs)[pi := player],
                   board := newBoard,
                   boardEnds := newEnds,
                   currentPlayerIndex := (currentPlayerIndex gs + 1) mod length (players gs),
                   turnsPassed := 0\<rparr>
      in if length (tiles player) = 0
         then gs1\<lparr>winner := Some (player_id player), isGameOver := True, gameMode := finished\<rparr>
         else gs1)"

text \<open>
  The \<open>make-move\<close> handler on the state of the room (lines 245--400), for a message from
  the socket \<open>sid\<close>. It returns the state the room holds afterwards and what was sent.
\<close>

definition make_move :: "GameState \<Rightarrow> string \<Rightarrow> GameMove \<Rightarrow> GameState \<times> Outcome" where
  "make_move gs sid mv =
     (if \<not> currentPlayerIndex gs < length (players gs) then (gs, Threw)
      else if player_id (players gs ! currentPlayerIndex gs) \<noteq> sid
      then (gs, Rejected NotYourTurn)
      else
        (case findIndex (\<lambda>p. player_id p = playerId mv) (players gs) of
           None \<Rightarrow> (gs, Rejected PlayerNotFound)
         | Some pi \<Rightarrow>
             if pass mv then (pass_turn gs, Broadcast)
             else
               (case findIndex (\<lambda>t. tile_id t = tile_id (move_tile mv))
                       (tiles (players gs ! pi)) of
                  None \<Rightarrow> (gs, Rejected TileNotInHand)
                | Some tileIndex \<Rightarrow>
                    (case check_placement gs mv of
                       Some r \<Rightarrow> (gs, Rejected r)
                     | None \<Rightarrow> (place_tile gs pi tileIndex mv, Broadcast)))))"

text \<open>The \<open>draw-tile\<close> handler of server.mjs on the state of the room (lines 410--426).\<close>

definition draw_tile :: "GameState \<Rightarrow> string \<Rightarrow> GameState \<times> Outcome" where
  "draw_tile gs sid =
     (if \<not> currentPlayerIndex gs < length (players gs) then (gs, Threw)
      else if player_id (players gs ! currentPlayerIndex gs) \<noteq> sid
      then (gs, Rejected NotYourTurn)
      else if length (boneyard gs) = 0 then (gs, Rejected NoTilesToDraw)
      else
        (let drawnTile = last (boneyard gs);
             currentPlayer = players gs ! currentPlayerIndex gs
         in (gs\<lparr>boneyard := butlast (boneyard gs),
                 players := (players gs)[currentPlayerIndex gs :=
                    currentPlayer\<lparr>tiles := tiles currentPlayer @ [drawnTile]\<rparr>]\<rparr>,
             Broadcast)))"

text \<open>
  The \<open>draw-tile\<close> handler of app/api/socket/route.ts (lines 181--201): the same checks and
  the same draw, then the turn moves on when the player still cannot move.
\<close>

definition route_draw_tile :: "GameState \<Rightarrow> string \<Rightarrow> GameState \<times> Outcome" where
  "route_draw_tile gs sid =
     (if \<not> currentPlayerIndex gs < length (players gs) then (gs, Threw)
      else if player_id (players gs ! currentPlayerIndex gs) \<noteq> sid
      then (gs, Rejected NotYourTurn)
      else if length (boneyard gs) = 0 then (gs, Rejected NoTilesToDraw)
      else
        (let drawnTile = last (boneyard gs);
             currentPlayer = (players gs ! currentPlayerIndex gs)
                \<lparr>tiles := tiles (players gs ! currentPlayerIndex gs) @ [drawnTile]\<rparr>;
             gs1 = gs\<lparr>boneyard := butlast (boneyard gs),
                      players := (players gs)[currentPlayerIndex gs := currentPlayer]\<rparr>
         in (if \<not> canPlayerMove currentPlayer (boardEnds gs1)
             then gs1\<lparr>currentPlayerIndex := (currentPlayerIndex gs1 + 1) mod length (players gs1)\<rparr>
             else gs1,
             Broadcast)))"

text \<open>
  The handlers with the room table \<open>gameRooms\<close> (lines 238--243, 402 and 406--408, 425).
  The handler works on the state object that the table holds and changes it in place, so
  on every path the table holds afterwards the state the handler has left;
  \<open>gameRooms.set\<close> on the accepted path stores that same object again.
\<close>

definition on_make_move ::
  "(string \<rightharpoonup> GameState) \<Rightarrow> string \<Rightarrow> string \<Rightarrow> GameMove \<Rightarrow> (string \<rightharpoonup> GameState) \<times> Outcome" where
  "on_make_move gameRooms sid roomId mv =
     (case gameRooms roomId of
        None \<Rightarrow> (gameRooms, Rejected GameNotFound)
      | Some gs \<Rightarrow> (let (gs', out) = make_move gs sid mv in (gameRooms(roomId \<mapsto> gs'), out)))"

definition on_draw_tile ::
  "(string \<rightharpoonup> GameState) \<Rightarrow> string \<Rightarrow> string \<Rightarrow> (string \<rightharpoonup> GameState) \<times> Outcome" where
  "on_draw_tile gameRooms sid roomId =
     (case gameRooms roomId of
        None \<Rightarrow> (gameRooms, Silent)
      | Some gs \<Rightarrow> (let (gs', out) = draw_tile gs sid in (gameRooms(roomId \<mapsto> gs'), out)))"

section \<open>Predicates of the specification\<close>

text \<open>
  The matching constraint of the chain: the right value of each placed tile equals the
  left value of the tile after it.
\<close>

fun chain_matches :: "PlacedTile list \<Rightarrow> bool" where
  "chain_matches [] = True"
| "chain_matches [p] = True"
| "chain_matches (p # q # rest) = (right (tile p) = left (tile q) \<and> chain_matches (q # rest))"

text \<open>
  The board ends rebuilt from the chain alone: none for the empty board, otherwise the
  left value of the leftmost tile tagged left and the right value of the rightmost tile
  tagged right.
\<close>

definition ends_of_board :: "PlacedTile list \<Rightarrow> BoardEnd list" where
  "ends_of_board b =
     (if b = [] then []
      else [\<lparr>end_value = left (tile (hd b)), end_position = position (hd b), end_side = SLeft\<rparr>,
            \<lparr>end_value = right (tile (last b)), end_position = position (last b),
              end_side = SRight\<rparr>])"

text \<open>
  The pip value a new tile has to match on a side of the chain: the outward value of the
  leftmost tile for the left side, of the rightmost tile for the right side; none on an
  empty board or for any other side.
\<close>

definition outward_value :: "PlacedTile list \<Rightarrow> Side \<Rightarrow> int option" where
  "outward_value b s =
     (if b = [] then None
      else if s = SLeft then Some (left (tile (hd b)))
      else if s = SRight then Some (right (tile (last b)))
      else None)"

text \<open>A tile of that identity is in the hand.\<close>

definition in_hand :: "DominoTile \<Rightarrow> Player \<Rightarrow> bool" where
  "in_hand t p \<longleftrightarrow> tile_id t \<in> tile_id ` set (tiles p)"

text \<open>A request of a client, and the handler that serves it.\<close>

datatype Request = MakeMove string GameMove | DrawTile string | RouteDrawTile string

fun handle :: "GameState \<Rightarrow> Request \<Rightarrow> GameState \<times> Outcome" where
  "handle gs (MakeMove sid mv) = make_move gs sid mv"
| "handle gs (DrawTile sid) = draw_tile gs sid"
| "handle gs (RouteDrawTile sid) = route_draw_tile gs sid"

text \<open>The state of a room after a sequence of requests, served in order.\<close>

fun run :: "GameState \<Rightarrow> Request list \<Rightarrow> GameState" where
  "run gs [] = gs"
| "run gs (r # rs) = run (fst (handle gs r)) rs"

text \<open>
  The states a match reaches from an empty board: each step is a request that a handler
  accepted.
\<close>

inductive reachable :: "GameState \<Rightarrow> bool" where
  empty_board: "board gs = [] \<Longrightarrow> boardEnds gs = [] \<Longrightarrow> reachable gs"
| accepted: "reachable gs \<Longrightarrow> handle gs r = (gs', Broadcast) \<Longrightarrow> reachable gs'"

code_pred reachable .

text \<open>The identities of all tiles of a match: in the hands, on the board, in the boneyard.\<close>

definition hand_ids :: "Player \<Rightarrow> string multiset" where
  "hand_ids p = mset (map tile_id (tiles p))"

definition board_ids :: "GameState \<Rightarrow> string multiset" where
  "board_ids gs = mset (map (\<lambda>p. tile_id (tile p)) (board gs))"

definition boneyard_ids :: "GameState \<Rightarrow> string multiset" where
  "boneyard_ids gs = mset (map tile_id (boneyard gs))"

definition all_tile_ids :: "GameState \<Rightarrow> string multiset" where
  "all_tile_ids gs =
     sum_list (map hand_ids (players gs)) + board_ids gs + boneyard_ids gs"

text \<open>
  The score of a hand in the words of the specification: the sum of the pip values of
  the tiles left in it, both values of every tile.
\<close>

definition pip_sum :: "DominoTile list \<Rightarrow> int" where
  "pip_sum hand = sum_list (map (\<lambda>t. left t + right t) hand)"

text \<open>
  The winner of a blocked match in the words of the specification: the first participant,
  in list order, whose hand has the lowest pip sum.
\<close>

definition first_lowest :: "Player list \<Rightarrow> nat \<Rightarrow> bool" where
  "first_lowest ps i \<longleftrightarrow>
     i < length ps \<and>
     (\<forall>j < length ps. pip_sum (tiles (ps ! i)) \<le> pip_sum (tiles (ps ! j))) \<and>
     (\<forall>j < i. pip_sum (tiles (ps ! i)) < pip_sum (tiles (ps ! j)))"

section \<open>A room and sample matches\<close>

text \<open>\<open>createGameState\<close> (server.mjs, lines 23--37).\<close>

definition createGameState :: "string \<Rightarrow> GameState" where
  "createGameState roomId =
     \<lparr>game_id = roomId, players = [], currentPlayerIndex = 0, board = [], boneyard = [],
      boardEnds = [], winner = None, isGameOver = False, turnsPassed = 0,
      gameMode = waiting, rematchRequests = []\<rparr>"

text \<open>The player object of the \<open>join-room\<close> handler, holding a hand.\<close>

definition player_with :: "string \<Rightarrow> DominoTile list \<Rightarrow> Player" where
  "player_with sid hand =
     \<lparr>player_id = sid, name = sid, tiles = hand, score = 0, isAI = False, isReady = True\<rparr>"

text \<open>A started match of the given players, as \<open>startGame\<close> leaves it, with player 0 to move.\<close>

definition started :: "Player list \<Rightarrow> DominoTile list \<Rightarrow> GameState" where
  "started ps yard =
     (createGameState ''ROOM01'')\<lparr>players := ps, currentPlayerIndex := 0, boneyard := yard,
        gameMode := playing\<rparr>"

definition place_move :: "string \<Rightarrow> DominoTile \<Rightarrow> Side \<Rightarrow> GameMove" where
  "place_move sid t s = \<lparr>playerId = sid, move_tile = t, move_side = s, pass = False\<rparr>"

definition pass_move :: "string \<Rightarrow> GameMove" where
  "pass_move sid = \<lparr>playerId = sid, move_tile = mkTile 0 0, move_side = SLeft, pass = True\<rparr>"

text \<open>
  Two participants on an empty board: A holds 2-3 alone, B holds 3-4 and 4-4. A's first
  placement empties A's hand.
\<close>

definition short_match :: GameState where
  "short_match =
     started [player_with ''A'' [mkTile 2 3], player_with ''B'' [mkTile 3 4, mkTile 4 4]]
       [mkTile 0 0]"

text \<open>Two participants on an empty board with fuller hands, and two tiles in the boneyard.\<close>

definition open_match :: GameState where
  "open_match =
     started [player_with ''A'' [mkTile 2 3, mkTile 3 4, mkTile 5 5],
              player_with ''B'' [mkTile 1 3, mkTile 6 6]]
       [mkTile 0 1, mkTile 0 0]"

text \<open>The same match after A has placed 2-3: the ends are 2 and 3, and B is to move.\<close>

definition after_first :: GameState where
  "after_first = fst (make_move open_match ''A'' (place_move ''A'' (mkTile 2 3) SLeft))"

text \<open>
  Then B places 1-3 on the right: the 3 of the tile has to touch the 3 of the chain, so
  the tile goes down turned, as 3-1.
\<close>

definition after_second :: GameState where
  "after_second = fst (make_move after_first ''B'' (place_move ''B'' (mkTile 1 3) SRight))"

text \<open>
  A tile object as a client may send it: the identity of 6-6 with the pip values 3 and 5.
\<close>

definition relabelled_66 :: DominoTile where
  "relabelled_66 = \<lparr>tile_id = ''6-6'', left = 3, right = 5, isDouble = False\<rparr>"

text \<open>
  A match on the board 2-3 where the participant to move, A, holds only 6-6 and the
  boneyard ends in 0-0: A cannot place before the draw nor after it.
\<close>

definition stuck_match :: GameState where
  "stuck_match =
     (started [player_with ''A'' [mkTile 6 6], player_with ''B'' [mkTile 3 4]]
        [mkTile 0 1, mkTile 0 0])
     \<lparr>board := [\<lparr>tile = mkTile 2 3, position = \<lparr>pos_x = 400, pos_y = 300\<rparr>,
                  orientation = horizontal, rotation = 0\<rparr>],
      boardEnds := [\<lparr>end_value = 2, end_position = \<lparr>pos_x = 400, pos_y = 300\<rparr>,
                     end_side = SLeft\<rparr>,
                    \<lparr>end_value = 3, end_position = \<lparr>pos_x = 400, pos_y = 300\<rparr>,
                     end_side = SRight\<rparr>]\<rparr>"

text \<open>
  Two participants whose hands both sum to 4, after one pass: B is to move and the
  counter of consecutive passes stands at 1.
\<close>

definition tied_match :: GameState where
  "tied_match =
     (started [player_with ''A'' [mkTile 1 3], player_with ''B'' [mkTile 0 4]] [])
     \<lparr>currentPlayerIndex := 1, turnsPassed := 1\<rparr>"

text \<open>
  Three participants after two consecutive passes, C to move: A holds 2-2 and 1-3 (8 pips),
  B holds 0-1 and 0-4 (5 pips), C holds 1-2 and 0-2 (5 pips as well). B and C tie for the
  lowest sum, and B comes first in the list.
\<close>

definition blocked_match :: GameState where
  "blocked_match =
     (started [player_with ''A'' [mkTile 2 2, mkTile 1 3],
               player_with ''B'' [mkTile 0 1, mkTile 0 4],
               player_with ''C'' [mkTile 1 2, mkTile 0 2]] [])
     \<lparr>currentPlayerIndex := 2, turnsPassed := 2\<rparr>"

text \<open>
  Three other hands, the last one strictly lowest: A holds 3-3 and 0-1 (7 pips), B holds
  0-4 and 1-1 (6 pips), C holds 0-0 and 1-2 (3 pips).
\<close>

definition last_lowest_match :: GameState where
  "last_lowest_match =
     (started [player_with ''A'' [mkTile 3 3, mkTile 0 1],
               player_with ''B'' [mkTile 0 4, mkTile 1 1],
               player_with ''C'' [mkTile 0 0, mkTile 1 2]] [])
     \<lparr>currentPlayerIndex := 2, turnsPassed := 2\<rparr>"

section \<open>Dealing\<close>











section \<open>Evaluation of the sample matches\<close>

lemmas sample_defs = short_match_def open_match_def after_first_def after_second_def
  stuck_match_def
  tied_match_def blocked_match_def last_lowest_match_def relabelled_66_def started_def
  createGameState_def player_with_def place_move_def pass_move_def mkTile_def digit_char_def

lemmas handler_defs = make_move_def draw_tile_def route_draw_tile_def place_tile_def
  pass_turn_def check_placement_def tileToPlace_def tilePosition_def needsFlip_def
  matchValue_def splice1_def lowestScoreWinner_def lowest_step_def calculateScore_def
  canPlayerMove_def canPlaceTile_def Let_def

section \<open>Lookups and the branches of the move handler\<close>

lemma findIndex_Some:
  "findIndex P xs = Some i \<Longrightarrow> i < length xs \<and> P (xs ! i) \<and> (\<forall>j < i. \<not> P (xs ! j))"
proof (induction xs arbitrary: i)
  case Nil
  then show ?case by simp
next
  case (Cons x xs)
  show ?case
  proof (cases "P x")
    case True
    then show ?thesis using Cons.prems by simp
  next
    case False
    then obtain k where k: "findIndex P xs = Some k" "i = Suc k"
      using Cons.prems by (auto split: option.splits)
    have "k < length xs \<and> P (xs ! k) \<and> (\<forall>j < k. \<not> P (xs ! j))" using Cons.IH k(1) by simp
    then show ?thesis using False k(2) by (auto simp: nth_Cons split: nat.splits)
  qed
qed

lemma findIndex_None: "findIndex P xs = None \<longleftrightarrow> (\<forall>x \<in> set xs. \<not> P x)"
  by (induction xs) (auto split: option.splits)

lemma make_move_pass:
  assumes "make_move gs sid mv = (gs', Broadcast)" and "pass mv"
  shows "gs' = pass_turn gs" and "players gs \<noteq> []"
  using assms by (auto simp: make_move_def split: if_splits option.splits)

lemma make_move_place:
  assumes "make_move gs sid mv = (gs', Broadcast)" and "\<not> pass mv"
  shows "\<exists>pi tileIndex.
           findIndex (\<lambda>p. player_id p = playerId mv) (players gs) = Some pi \<and>
           findIndex (\<lambda>t. tile_id t = tile_id (move_tile mv)) (tiles (players gs ! pi))
             = Some tileIndex \<and>
           check_placement gs mv = None \<and>
           currentPlayerIndex gs < length (players gs) \<and>
           player_id (players gs ! currentPlayerIndex gs) = sid \<and>
           gs' = place_tile gs pi tileIndex mv"
  using assms by (auto simp: make_move_def split: if_splits option.splits)

lemma place_tile_players:
  "players (place_tile gs pi ti mv) =
     (players gs)[pi := (players gs ! pi)\<lparr>tiles := splice1 ti (tiles (players gs ! pi))\<rparr>]"
  by (simp add: place_tile_def Let_def)

lemma place_tile_turnsPassed: "turnsPassed (place_tile gs pi ti mv) = 0"
  by (simp add: place_tile_def Let_def)

section \<open>Rejections leave the state alone\<close>

lemma make_move_rejected:
  "snd (make_move gs sid mv) = Rejected r \<Longrightarrow> fst (make_move gs sid mv) = gs"
  by (auto simp: make_move_def split: if_splits option.splits)

lemma draw_tile_rejected:
  "snd (draw_tile gs sid) = Rejected r \<Longrightarrow> fst (draw_tile gs sid) = gs"
  by (auto simp: draw_tile_def Let_def split: if_splits)

lemma route_draw_tile_rejected:
  "snd (route_draw_tile gs sid) = Rejected r \<Longrightarrow> fst (route_draw_tile gs sid) = gs"
  by (auto simp: route_draw_tile_def Let_def split: if_splits)

lemma on_make_move_rejected:
  "on_make_move rooms sid rid mv = (rooms', Rejected r) \<Longrightarrow> rooms' = rooms"
proof (cases "rooms rid")
  case None
  assume "on_make_move rooms sid rid mv = (rooms', Rejected r)"
  then show ?thesis using None by (simp add: on_make_move_def)
next
  case (Some gs)
  assume a: "on_make_move rooms sid rid mv = (rooms', Rejected r)"
  obtain gs' out where m: "make_move gs sid mv = (gs', out)" by (cases "make_move gs sid mv")
  from a Some m have "out = Rejected r" and r: "rooms' = rooms(rid \<mapsto> gs')"
    by (simp_all add: on_make_move_def)
  then have "gs' = gs" using make_move_rejected[of gs sid mv r] m by simp
  then show ?thesis using r Some by (simp add: map_upd_triv)
qed

lemma on_draw_tile_rejected:
  "on_draw_tile rooms sid rid = (rooms', Rejected r) \<Longrightarrow> rooms' = rooms"
proof (cases "rooms rid")
  case None
  assume "on_draw_tile rooms sid rid = (rooms', Rejected r)"
  then show ?thesis using None by (simp add: on_draw_tile_def)
next
  case (Some gs)
  assume a: "on_draw_tile rooms sid rid = (rooms', Rejected r)"
  obtain gs' out where m: "draw_tile gs sid = (gs', out)" by (cases "draw_tile gs sid")
  from a Some m have "out = Rejected r" and r: "rooms' = rooms(rid \<mapsto> gs')"
    by (simp_all add: on_draw_tile_def)
  then have "gs' = gs" using draw_tile_rejected[of gs sid r] m by simp
  then show ?thesis using r Some by (simp add: map_upd_triv)
qed

text \<open>
  Claim C8. Whenever a handler answers a move or a draw with a rejection, the state
  of the match after the handler equals the state before it, field for field: for the
  \<open>make-move\<close> handler, for both \<open>draw-tile\<close> handlers, and for the room table that holds
  the state.
\<close>

theorem rejection_keeps_state:
  "(snd (make_move gs sid mv) = Rejected r \<longrightarrow> fst (make_move gs sid mv) = gs) \<and>
   (snd (draw_tile gs sid) = Rejected r \<longrightarrow> fst (draw_tile gs sid) = gs) \<and>
   (snd (route_draw_tile gs sid) = Rejected r \<longrightarrow> fst (route_draw_tile gs sid) = gs) \<and>
   (snd (on_make_move rooms sid rid mv) = Rejected r \<longrightarrow>
      fst (on_make_move rooms sid rid mv) = rooms) \<and>
   (snd (on_draw_tile rooms sid rid) = Rejected r \<longrightarrow> fst (on_draw_tile rooms sid rid) = rooms)"
  using make_move_rejected[of gs sid mv r] draw_tile_rejected[of gs sid r]
    route_draw_tile_rejected[of gs sid r]
    on_make_move_rejected[of rooms sid rid mv "fst (on_make_move rooms sid rid mv)" r]
    on_draw_tile_rejected[of rooms sid rid "fst (on_draw_tile rooms sid rid)" r]
  by (metis prod.collapse)

text \<open>
  The five rejections of the error taxonomy, each on a sample match, with the state
  left as it was.
\<close>

theorem rejection_keeps_state_witness:
  "snd (make_move open_match ''B'' (place_move ''B'' (mkTile 1 3) SLeft)) = Rejected NotYourTurn \<and>
   fst (make_move open_match ''B'' (place_move ''B'' (mkTile 1 3) SLeft)) = open_match \<and>
   snd (make_move open_match ''A'' (place_move ''A'' (mkTile 6 6) SLeft)) = Rejected TileNotInHand \<and>
   fst (make_move open_match ''A'' (place_move ''A'' (mkTile 6 6) SLeft)) = open_match \<and>
   snd (make_move after_first ''B'' (place_move ''B'' (mkTile 6 6) SRight)) = Rejected TileDoesNotMatch \<and>
   fst (make_move after_first ''B'' (place_move ''B'' (mkTile 6 6) SRight)) = after_first \<and>
   snd (make_move after_first ''B'' (place_move ''B'' (mkTile 1 3) STop)) = Rejected InvalidSide \<and>
   fst (make_move after_first ''B'' (place_move ''B'' (mkTile 1 3) STop)) = after_first \<and>
   snd (draw_tile tied_match ''B'') = Rejected NoTilesToDraw \<and>
   fst (draw_tile tied_match ''B'') = tied_match \<and>
   snd (route_draw_tile tied_match ''B'') = Rejected NoTilesToDraw \<and>
   fst (route_draw_tile tied_match ''B'') = tied_match \<and>
   snd (on_make_move [''ROOM01'' \<mapsto> open_match] ''B'' ''ROOM01'' (pass_move ''B'')) = Rejected NotYourTurn \<and>
   fst (on_make_move [''ROOM01'' \<mapsto> open_match] ''B'' ''ROOM01'' (pass_move ''B'')) = [''ROOM01'' \<mapsto> open_match] \<and>
   snd (on_draw_tile [''ROOM01'' \<mapsto> tied_match] ''B'' ''ROOM01'') = Rejected NoTilesToDraw \<and>
   fst (on_draw_tile [''ROOM01'' \<mapsto> tied_match] ''B'' ''ROOM01'') = [''ROOM01'' \<mapsto> tied_match]"
proof -
  have 1: "snd (make_move open_match ''B'' (place_move ''B'' (mkTile 1 3) SLeft)) = Rejected NotYourTurn"
    by (simp add: sample_defs handler_defs)
  have 2: "snd (make_move open_match ''A'' (place_move ''A'' (mkTile 6 6) SLeft)) = Rejected TileNotInHand"
    by (simp add: sample_defs handler_defs)
  have 3: "snd (make_move after_first ''B'' (place_move ''B'' (mkTile 6 6) SRight)) = Rejected TileDoesNotMatch"
    by (simp add: sample_defs handler_defs)
  have 4: "snd (make_move after_first ''B'' (place_move ''B'' (mkTile 1 3) STop)) = Rejected InvalidSide"
    by (simp add: sample_defs handler_defs)
  have 5: "snd (draw_tile tied_match ''B'') = Rejected NoTilesToDraw"
    by (simp add: sample_defs handler_defs)
  have 6: "snd (route_draw_tile tied_match ''B'') = Rejected NoTilesToDraw"
    by (simp add: sample_defs handler_defs)
  have 7: "snd (on_make_move [''ROOM01'' \<mapsto> open_match] ''B'' ''ROOM01'' (pass_move ''B'')) = Rejected NotYourTurn"
    by (simp add: on_make_move_def sample_defs handler_defs split: prod.splits)
  have 8: "snd (on_draw_tile [''ROOM01'' \<mapsto> tied_match] ''B'' ''ROOM01'') = Rejected NoTilesToDraw"
    by (simp add: on_draw_tile_def sample_defs handler_defs split: prod.splits)
  show ?thesis
    using 1 2 3 4 5 6 7 8
      rejection_keeps_state[of open_match "''B''" "place_move ''B'' (mkTile 1 3) SLeft" NotYourTurn
         "[''ROOM01'' \<mapsto> open_match]" "''ROOM01''"]
      rejection_keeps_state[of open_match "''A''" "place_move ''A'' (mkTile 6 6) SLeft" TileNotInHand]
      rejection_keeps_state[of after_first "''B''" "place_move ''B'' (mkTile 6 6) SRight" TileDoesNotMatch]
      rejection_keeps_state[of after_first "''B''" "place_move ''B'' (mkTile 1 3) STop" InvalidSide]
      rejection_keeps_state[of tied_match "''B''" _ NoTilesToDraw "[''ROOM01'' \<mapsto> tied_match]" "''ROOM01''"]
      rejection_keeps_state[of open_match "''B''" "pass_move ''B''" NotYourTurn "[''ROOM01'' \<mapsto> open_match]" "''ROOM01''"]
    by simp
qed

section \<open>Passing and the blocked match\<close>

text \<open>
  The reduction of the source computes the pip sum of the specification: the accumulator
  of \<open>reduce\<close> carries the sum of the tiles already seen.
\<close>

lemma calculateScore_from:
  "foldl (\<lambda>sum t. sum + left t + right t) acc ts = acc + pip_sum ts"
  by (induction ts arbitrary: acc) (simp_all add: pip_sum_def)

lemma calculateScore_pip_sum: "calculateScore ts = pip_sum ts"
  by (simp add: calculateScore_def calculateScore_from)

lemma lowest_scan:
  "ps \<noteq> [] \<Longrightarrow>
   \<exists>i. first_lowest ps i \<and>
       foldl lowest_step (None, []) ps =
         (Some (pip_sum (tiles (ps ! i))), player_id (ps ! i))"
proof (induction ps rule: rev_induct)
  case Nil
  then show ?case by simp
next
  case (snoc p ps)
  show ?case
  proof (cases "ps = []")
    case True
    then have "first_lowest (ps @ [p]) 0" by (simp add: first_lowest_def)
    moreover have "foldl lowest_step (None, []) (ps @ [p]) =
        (Some (pip_sum (tiles p)), player_id p)"
      using True by (simp add: lowest_step_def calculateScore_pip_sum)
    ultimately show ?thesis using True by (intro exI[of _ 0]) simp
  next
    case False
    then obtain i where i: "first_lowest ps i"
      and acc: "foldl lowest_step (None, []) ps =
         (Some (pip_sum (tiles (ps ! i))), player_id (ps ! i))"
      using snoc.IH by blast
    have il: "i < length ps" using i by (simp add: first_lowest_def)
    show ?thesis
    proof (cases "pip_sum (tiles p) < pip_sum (tiles (ps ! i))")
      case True
      have "first_lowest (ps @ [p]) (length ps)"
        using i True by (fastforce simp: first_lowest_def nth_append less_Suc_eq)
      moreover have "foldl lowest_step (None, []) (ps @ [p]) =
          (Some (pip_sum (tiles p)), player_id p)"
        using acc True by (simp add: lowest_step_def calculateScore_pip_sum)
      ultimately show ?thesis by (intro exI[of _ "length ps"]) simp
    next
      case False
      have "first_lowest (ps @ [p]) i"
        using i False by (fastforce simp: first_lowest_def nth_append less_Suc_eq)
      moreover have "foldl lowest_step (None, []) (ps @ [p]) =
          (Some (pip_sum (tiles (ps ! i))), player_id (ps ! i))"
        using acc False by (simp add: lowest_step_def calculateScore_pip_sum)
      ultimately show ?thesis using il by (intro exI[of _ i]) (simp add: nth_append)
    qed
  qed
qed

lemma lowestScoreWinner_first_lowest:
  "ps \<noteq> [] \<Longrightarrow> \<exists>i. first_lowest ps i \<and> lowestScoreWinner ps = player_id (ps ! i)"
  using lowest_scan[of ps] by (auto simp: lowestScoreWinner_def)

text \<open>
  Claim C4. An accepted pass moves the turn to the next participant and adds one to the
  counter of consecutive passes; an accepted placement sets the counter to 0. When the
  counter, after the pass, reaches the number of participants, the match is finished and
  the winner is the first participant in list order whose hand has the lowest pip sum,
  the sum being \<open>pip_sum\<close>, written from the specification and not from the reduction
  of the source; below that number a pass leaves phase, terminal flag and winner as they
  were.
\<close>

theorem pass_and_counter:
  assumes "make_move gs sid mv = (gs', Broadcast)"
  shows "(pass mv \<longrightarrow>
            currentPlayerIndex gs' = (currentPlayerIndex gs + 1) mod length (players gs) \<and>
            turnsPassed gs' = turnsPassed gs + 1 \<and>
            (length (players gs) \<le> turnsPassed gs + 1 \<longrightarrow>
               gameMode gs' = finished \<and> isGameOver gs' \<and>
               (\<exists>i. first_lowest (players gs) i \<and>
                    winner gs' = Some (player_id (players gs ! i)))) \<and>
            (turnsPassed gs + 1 < length (players gs) \<longrightarrow>
               gameMode gs' = gameMode gs \<and> isGameOver gs' = isGameOver gs \<and>
               winner gs' = winner gs)) \<and>
         (\<not> pass mv \<longrightarrow> turnsPassed gs' = 0)"
proof (cases "pass mv")
  case True
  have gs': "gs' = pass_turn gs" and ne: "players gs \<noteq> []"
    using make_move_pass[OF assms True] by simp_all
  obtain i where i: "first_lowest (players gs) i"
    "lowestScoreWinner (players gs) = player_id (players gs ! i)"
    using lowestScoreWinner_first_lowest[OF ne] by blast
  have idx: "currentPlayerIndex gs' = (currentPlayerIndex gs + 1) mod length (players gs)"
    and cnt: "turnsPassed gs' = turnsPassed gs + 1"
    by (simp_all add: gs' pass_turn_def Let_def)
  have blocked: "length (players gs) \<le> turnsPassed gs + 1 \<Longrightarrow>
      gameMode gs' = finished \<and> isGameOver gs' \<and>
      winner gs' = Some (player_id (players gs ! i))"
    using i(2) by (simp add: gs' pass_turn_def Let_def)
  have going: "turnsPassed gs + 1 < length (players gs) \<Longrightarrow>
      gameMode gs' = gameMode gs \<and> isGameOver gs' = isGameOver gs \<and> winner gs' = winner gs"
    by (simp add: gs' pass_turn_def Let_def)
  show ?thesis using True idx cnt blocked going i(1) by blast
next
  case False
  then show ?thesis using make_move_place[OF assms False]
    by (auto simp: place_tile_turnsPassed)
qed

text \<open>
  The third consecutive pass among three participants. With hands of 8, 5 and 5 pips the
  match ends with B as winner, the first of the two lowest; with hands of 7, 6 and 3 pips
  it ends with C as winner.
\<close>

theorem pass_and_counter_witness:
  "pass (pass_move ''C'') \<and>
   snd (make_move blocked_match ''C'' (pass_move ''C'')) = Broadcast \<and>
   currentPlayerIndex (fst (make_move blocked_match ''C'' (pass_move ''C''))) = 0 \<and>
   turnsPassed (fst (make_move blocked_match ''C'' (pass_move ''C''))) = 3 \<and>
   length (players blocked_match) = 3 \<and>
   gameMode (fst (make_move blocked_match ''C'' (pass_move ''C''))) = finished \<and>
   isGameOver (fst (make_move blocked_match ''C'' (pass_move ''C''))) \<and>
   map (\<lambda>p. (player_id p, map (\<lambda>t. (left t, right t)) (tiles p))) (players blocked_match) =
     [(''A'', [(2, 2), (1, 3)]), (''B'', [(0, 1), (0, 4)]), (''C'', [(1, 2), (0, 2)])] \<and>
   map (\<lambda>p. pip_sum (tiles p)) (players blocked_match) = [8, 5, 5] \<and>
   first_lowest (players blocked_match) 1 \<and>
   winner (fst (make_move blocked_match ''C'' (pass_move ''C''))) = Some ''B'' \<and>
   snd (make_move last_lowest_match ''C'' (pass_move ''C'')) = Broadcast \<and>
   map (\<lambda>p. (player_id p, map (\<lambda>t. (left t, right t)) (tiles p)))
     (players last_lowest_match) =
     [(''A'', [(3, 3), (0, 1)]), (''B'', [(0, 4), (1, 1)]), (''C'', [(0, 0), (1, 2)])] \<and>
   map (\<lambda>p. pip_sum (tiles p)) (players last_lowest_match) = [7, 6, 3] \<and>
   first_lowest (players last_lowest_match) 2 \<and>
   winner (fst (make_move last_lowest_match ''C'' (pass_move ''C''))) = Some ''C''"
proof -
  have b: "snd (make_move blocked_match ''C'' (pass_move ''C'')) = Broadcast"
    by (simp add: sample_defs handler_defs)
  have h: "make_move blocked_match ''C'' (pass_move ''C'') =
      (fst (make_move blocked_match ''C'' (pass_move ''C'')), Broadcast)"
    using b by (metis prod.collapse)
  have b': "snd (make_move last_lowest_match ''C'' (pass_move ''C'')) = Broadcast"
    by (simp add: sample_defs handler_defs)
  have h': "make_move last_lowest_match ''C'' (pass_move ''C'') =
      (fst (make_move last_lowest_match ''C'' (pass_move ''C'')), Broadcast)"
    using b' by (metis prod.collapse)
  have hands: "map (\<lambda>p. (player_id p, map (\<lambda>t. (left t, right t)) (tiles p)))
      (players blocked_match) =
     [(''A'', [(2, 2), (1, 3)]), (''B'', [(0, 1), (0, 4)]), (''C'', [(1, 2), (0, 2)])]"
    by (simp add: sample_defs)
  have hands': "map (\<lambda>p. (player_id p, map (\<lambda>t. (left t, right t)) (tiles p)))
      (players last_lowest_match) =
     [(''A'', [(3, 3), (0, 1)]), (''B'', [(0, 4), (1, 1)]), (''C'', [(0, 0), (1, 2)])]"
    by (simp add: sample_defs)
  have sums: "map (\<lambda>p. pip_sum (tiles p)) (players blocked_match) = [8, 5, 5]"
    "map (\<lambda>p. pip_sum (tiles p)) (players last_lowest_match) = [7, 6, 3]"
    by (simp_all add: sample_defs pip_sum_def)
  have fl: "first_lowest (players blocked_match) 1"
    "first_lowest (players last_lowest_match) 2"
    by (simp_all add: first_lowest_def sample_defs pip_sum_def less_Suc_eq numeral_3_eq_3
        numeral_2_eq_2 all_conj_distrib)
  have state: "pass (pass_move ''C'') \<and>
      currentPlayerIndex (fst (make_move blocked_match ''C'' (pass_move ''C''))) = 0 \<and>
      turnsPassed (fst (make_move blocked_match ''C'' (pass_move ''C''))) = 3 \<and>
      length (players blocked_match) = 3 \<and>
      gameMode (fst (make_move blocked_match ''C'' (pass_move ''C''))) = finished \<and>
      isGameOver (fst (make_move blocked_match ''C'' (pass_move ''C'')))"
    using pass_and_counter[OF h] by (simp add: sample_defs)
  have w: "winner (fst (make_move blocked_match ''C'' (pass_move ''C''))) = Some ''B''"
    by (simp add: sample_defs handler_defs)
  have w': "winner (fst (make_move last_lowest_match ''C'' (pass_move ''C''))) = Some ''C''"
    using pass_and_counter[OF h'] by (simp add: sample_defs handler_defs)
  show ?thesis using b b' hands hands' sums fl state w w' by blast
qed

section \<open>The empty hand\<close>

text \<open>
  Claim C3, as amended. If an accepted placement leaves the hand of the participant the
  move names empty, the resulting state has the phase finished, the terminal flag set and
  that participant as winner. Nothing is said of submissions after the match has
  ended: the handler does not look at the phase.
\<close>

theorem empty_hand_wins:
  assumes "make_move gs sid mv = (gs', Broadcast)" and "\<not> pass mv"
    and "findIndex (\<lambda>p. player_id p = playerId mv) (players gs) = Some pi"
    and "tiles (players gs' ! pi) = []"
  shows "gameMode gs' = finished \<and> isGameOver gs' \<and> winner gs' = Some (playerId mv) \<and>
         player_id (players gs' ! pi) = playerId mv"
proof -
  obtain ti where gs': "gs' = place_tile gs pi ti mv"
    using make_move_place[OF assms(1,2)] assms(3) by auto
  have pi: "pi < length (players gs)" and pid: "player_id (players gs ! pi) = playerId mv"
    using findIndex_Some[OF assms(3)] by simp_all
  have empty: "splice1 ti (tiles (players gs ! pi)) = []"
    using assms(4) pi by (simp add: gs' place_tile_players)
  show ?thesis using empty pi pid by (simp add: gs' place_tile_def Let_def)
qed

text \<open>
  A's only tile, placed on the empty board.
\<close>

theorem empty_hand_wins_witness:
  "snd (make_move short_match ''A'' (place_move ''A'' (mkTile 2 3) SLeft)) = Broadcast \<and>
   tiles (players (fst (make_move short_match ''A'' (place_move ''A'' (mkTile 2 3) SLeft))) ! 0) = [] \<and>
   gameMode (fst (make_move short_match ''A'' (place_move ''A'' (mkTile 2 3) SLeft))) = finished \<and>
   isGameOver (fst (make_move short_match ''A'' (place_move ''A'' (mkTile 2 3) SLeft))) \<and>
   winner (fst (make_move short_match ''A'' (place_move ''A'' (mkTile 2 3) SLeft))) = Some ''A''"
proof -
  have b: "snd (make_move short_match ''A'' (place_move ''A'' (mkTile 2 3) SLeft)) = Broadcast"
    by (simp add: sample_defs handler_defs)
  have h: "make_move short_match ''A'' (place_move ''A'' (mkTile 2 3) SLeft) =
      (fst (make_move short_match ''A'' (place_move ''A'' (mkTile 2 3) SLeft)), Broadcast)"
    using b by (metis prod.collapse)
  have np: "\<not> pass (place_move ''A'' (mkTile 2 3) SLeft)" by (simp add: place_move_def)
  have f: "findIndex (\<lambda>p. player_id p = playerId (place_move ''A'' (mkTile 2 3) SLeft))
      (players short_match) = Some 0"
    by (simp add: sample_defs)
  have e: "tiles (players (fst (make_move short_match ''A''
      (place_move ''A'' (mkTile 2 3) SLeft))) ! 0) = []"
    by (simp add: sample_defs handler_defs)
  show ?thesis using empty_hand_wins[OF h np f e] b e
    by (simp add: place_move_def)
qed

text \<open>
  Claim C3 as stated fails: after A has won with an empty hand the match is finished,
  and the placement that B submits next is accepted and lands on the board.
\<close>

theorem move_after_conclusion:
  "gameMode (fst (make_move short_match ''A'' (place_move ''A'' (mkTile 2 3) SLeft))) = finished \<and>
   isGameOver (fst (make_move short_match ''A'' (place_move ''A'' (mkTile 2 3) SLeft))) \<and>
   snd (make_move (fst (make_move short_match ''A'' (place_move ''A'' (mkTile 2 3) SLeft)))
          ''B'' (place_move ''B'' (mkTile 3 4) SRight)) = Broadcast \<and>
   map (\<lambda>p. tile_id (tile p))
     (board (fst (make_move (fst (make_move short_match ''A'' (place_move ''A'' (mkTile 2 3) SLeft)))
          ''B'' (place_move ''B'' (mkTile 3 4) SRight)))) = [''2-3'', ''3-4'']"
  by (simp add: sample_defs handler_defs)

section \<open>Orientation of a placed tile\<close>

lemma find_never: "find (\<lambda>x. False) xs = None"
  by (induction xs) simp_all

lemma check_placement_side:
  assumes "check_placement gs mv = None"
    and "find (\<lambda>e. end_side e = move_side mv) (boardEnds gs) = Some e"
  shows "(move_side mv = SLeft \<or> move_side mv = SRight) \<and>
         (left (move_tile mv) = end_value e \<or> right (move_tile mv) = end_value e)"
proof -
  have ne: "boardEnds gs \<noteq> []" using assms(2) by auto
  show ?thesis
  proof (cases "move_side mv")
    case SLeft
    then show ?thesis using assms ne
      by (auto simp: check_placement_def Let_def split: option.splits if_splits)
  next
    case SRight
    then show ?thesis using assms ne
      by (auto simp: check_placement_def Let_def split: option.splits if_splits)
  next
    case STop
    then show ?thesis using assms(1) ne by (simp add: check_placement_def find_never)
  next
    case SBottom
    then show ?thesis using assms(1) ne by (simp add: check_placement_def find_never)
  qed
qed

lemma place_tile_board:
  "board (place_tile gs pi ti mv) =
     (if move_side mv = SRight
      then board gs @ [\<lparr>tile = tileToPlace gs mv, position = tilePosition gs mv,
                         orientation = horizontal, rotation = 0\<rparr>]
      else \<lparr>tile = tileToPlace gs mv, position = tilePosition gs mv,
             orientation = horizontal, rotation = 0\<rparr> # board gs)"
  by (simp add: place_tile_def Let_def)

lemma place_tile_ends:
  "boardEnds (place_tile gs pi ti mv) = ends_of_board (board (place_tile gs pi ti mv))"
  by (cases "board gs") (simp_all add: place_tile_def Let_def ends_of_board_def)

lemma tileToPlace_id: "tile_id (tileToPlace gs mv) = tile_id (move_tile mv)"
  by (simp add: tileToPlace_def)

lemma tileToPlace_right:
  assumes "board gs \<noteq> []" and "move_side mv = SRight"
    and "find (\<lambda>e. end_side e = move_side mv) (boardEnds gs) = Some e"
    and "left (move_tile mv) = end_value e \<or> right (move_tile mv) = end_value e"
  shows "left (tileToPlace gs mv) = end_value e"
    and "right (tileToPlace gs mv) =
           (if left (move_tile mv) = end_value e then right (move_tile mv)
            else left (move_tile mv))"
  using assms by (auto simp: tileToPlace_def needsFlip_def matchValue_def)

lemma tileToPlace_left:
  assumes "board gs \<noteq> []" and "move_side mv = SLeft"
    and "find (\<lambda>e. end_side e = move_side mv) (boardEnds gs) = Some e"
    and "left (move_tile mv) = end_value e \<or> right (move_tile mv) = end_value e"
  shows "right (tileToPlace gs mv) = end_value e"
    and "left (tileToPlace gs mv) =
           (if right (move_tile mv) = end_value e then left (move_tile mv)
            else right (move_tile mv))"
  using assms by (auto simp: tileToPlace_def needsFlip_def matchValue_def)

lemma tileToPlace_double:
  "left (move_tile mv) = right (move_tile mv) \<Longrightarrow> tileToPlace gs mv = move_tile mv"
  by (simp add: tileToPlace_def needsFlip_def)

text \<open>
  Claim C1. For an accepted placement (not a pass) on a non-empty board, with \<open>e\<close> the
  current board end on the side of the move: on the right, the tile is appended with the
  value equal to the right end as its left, chain-adjacent value, and its other value is
  the new right end; on the left, the tile is prepended with the value equal to the left
  end as its right value, and its other value is the new left end. The placed tile keeps
  the identity of the submitted tile, and a tile whose two values are equal is placed as
  submitted.
\<close>

theorem placement_orientation:
  assumes acc: "make_move gs sid mv = (gs', Broadcast)" and np: "\<not> pass mv"
    and ne: "board gs \<noteq> []"
    and e: "find (\<lambda>e. end_side e = move_side mv) (boardEnds gs) = Some e"
  shows "(move_side mv = SRight \<or> move_side mv = SLeft) \<and>
         (move_side mv = SRight \<longrightarrow>
            (\<exists>p. board gs' = board gs @ [p] \<and>
                 tile_id (tile p) = tile_id (move_tile mv) \<and>
                 left (tile p) = end_value e \<and>
                 right (tile p) =
                   (if left (move_tile mv) = end_value e then right (move_tile mv)
                    else left (move_tile mv)) \<and>
                 (\<exists>e'. find (\<lambda>e. end_side e = SRight) (boardEnds gs') = Some e' \<and>
                       end_value e' = right (tile p)) \<and>
                 (left (move_tile mv) = right (move_tile mv) \<longrightarrow> tile p = move_tile mv))) \<and>
         (move_side mv = SLeft \<longrightarrow>
            (\<exists>p. board gs' = p # board gs \<and>
                 tile_id (tile p) = tile_id (move_tile mv) \<and>
                 right (tile p) = end_value e \<and>
                 left (tile p) =
                   (if right (move_tile mv) = end_value e then left (move_tile mv)
                    else right (move_tile mv)) \<and>
                 (\<exists>e'. find (\<lambda>e. end_side e = SLeft) (boardEnds gs') = Some e' \<and>
                       end_value e' = left (tile p)) \<and>
                 (left (move_tile mv) = right (move_tile mv) \<longrightarrow> tile p = move_tile mv)))"
proof -
  obtain pi ti where chk: "check_placement gs mv = None"
    and gs': "gs' = place_tile gs pi ti mv"
    using make_move_place[OF acc np] by blast
  have side: "move_side mv = SLeft \<or> move_side mv = SRight"
    and fits: "left (move_tile mv) = end_value e \<or> right (move_tile mv) = end_value e"
    using check_placement_side[OF chk e] by simp_all
  define p where "p = \<lparr>tile = tileToPlace gs mv, position = tilePosition gs mv,
                         orientation = horizontal, rotation = 0\<rparr>"
  have tp: "tile p = tileToPlace gs mv" by (simp add: p_def)
  have ends: "boardEnds gs' = ends_of_board (board gs')"
    by (simp add: gs' place_tile_ends)
  have right_case: "move_side mv = SRight \<Longrightarrow>
      board gs' = board gs @ [p] \<and>
      tile_id (tile p) = tile_id (move_tile mv) \<and>
      left (tile p) = end_value e \<and>
      right (tile p) =
        (if left (move_tile mv) = end_value e then right (move_tile mv)
         else left (move_tile mv)) \<and>
      (\<exists>e'. find (\<lambda>e. end_side e = SRight) (boardEnds gs') = Some e' \<and>
            end_value e' = right (tile p)) \<and>
      (left (move_tile mv) = right (move_tile mv) \<longrightarrow> tile p = move_tile mv)"
  proof -
    assume r: "move_side mv = SRight"
    have b: "board gs' = board gs @ [p]" using r by (simp add: gs' place_tile_board p_def)
    have en: "\<exists>e'. find (\<lambda>e. end_side e = SRight) (boardEnds gs') = Some e' \<and>
            end_value e' = right (tile p)"
      by (simp add: ends b ends_of_board_def)
    show ?thesis
      using b en tileToPlace_right[OF ne r e fits] tileToPlace_id[of gs mv]
        tileToPlace_double[of mv gs]
      by (simp add: tp)
  qed
  have left_case: "move_side mv = SLeft \<Longrightarrow>
      board gs' = p # board gs \<and>
      tile_id (tile p) = tile_id (move_tile mv) \<and>
      right (tile p) = end_value e \<and>
      left (tile p) =
        (if right (move_tile mv) = end_value e then left (move_tile mv)
         else right (move_tile mv)) \<and>
      (\<exists>e'. find (\<lambda>e. end_side e = SLeft) (boardEnds gs') = Some e' \<and>
            end_value e' = left (tile p)) \<and>
      (left (move_tile mv) = right (move_tile mv) \<longrightarrow> tile p = move_tile mv)"
  proof -
    assume l: "move_side mv = SLeft"
    have b: "board gs' = p # board gs" using l by (simp add: gs' place_tile_board p_def)
    have en: "\<exists>e'. find (\<lambda>e. end_side e = SLeft) (boardEnds gs') = Some e' \<and>
            end_value e' = left (tile p)"
      by (simp add: ends b ends_of_board_def)
    show ?thesis
      using b en tileToPlace_left[OF ne l e fits] tileToPlace_id[of gs mv]
        tileToPlace_double[of mv gs]
      by (simp add: tp)
  qed
  show ?thesis using side right_case left_case by blast
qed

text \<open>
  B places 1-3 on the right of the chain 2-3: it lands as 3-1 and the right end
  becomes 1.
\<close>

theorem placement_orientation_witness:
  "snd (make_move after_first ''B'' (place_move ''B'' (mkTile 1 3) SRight)) = Broadcast \<and>
   map (\<lambda>p. (left (tile p), right (tile p))) (board after_first) = [(2, 3)] \<and>
   map end_value (boardEnds after_first) = [2, 3] \<and>
   left (mkTile 1 3) = 1 \<and> right (mkTile 1 3) = 3 \<and>
   map (\<lambda>p. (tile_id (tile p), left (tile p), right (tile p))) (board after_second) =
     [(''2-3'', 2, 3), (''1-3'', 3, 1)] \<and>
   map end_value (boardEnds after_second) = [2, 1]"
proof -
  have b: "snd (make_move after_first ''B'' (place_move ''B'' (mkTile 1 3) SRight)) = Broadcast"
    by (simp add: sample_defs handler_defs)
  have h: "make_move after_first ''B'' (place_move ''B'' (mkTile 1 3) SRight) =
      (after_second, Broadcast)"
    using b unfolding after_second_def by (metis prod.collapse)
  have np: "\<not> pass (place_move ''B'' (mkTile 1 3) SRight)" by (simp add: place_move_def)
  have ne: "board after_first \<noteq> []" by (simp add: sample_defs handler_defs)
  have e: "find (\<lambda>e. end_side e = move_side (place_move ''B'' (mkTile 1 3) SRight))
      (boardEnds after_first) =
      Some \<lparr>end_value = 3, end_position = \<lparr>pos_x = 400, pos_y = 300\<rparr>, end_side = SRight\<rparr>"
    by (simp add: sample_defs handler_defs)
  have rest: "map (\<lambda>p. (left (tile p), right (tile p))) (board after_first) = [(2, 3)] \<and>
      map end_value (boardEnds after_first) = [2, 3] \<and>
      left (mkTile 1 3) = 1 \<and> right (mkTile 1 3) = 3"
    by (simp add: sample_defs handler_defs)
  have fin: "map (\<lambda>p. (tile_id (tile p), left (tile p), right (tile p))) (board after_second) =
     [(''2-3'', 2, 3), (''1-3'', 3, 1)] \<and>
     map end_value (boardEnds after_second) = [2, 1]"
    by (simp add: sample_defs handler_defs)
  show ?thesis using placement_orientation[OF h np ne e] b rest fin by simp
qed

section \<open>Validation of a placement\<close>

lemma findIndex_in_hand:
  "(findIndex (\<lambda>t. tile_id t = tile_id u) (tiles p) = None) \<longleftrightarrow> \<not> in_hand u p"
  by (force simp: findIndex_None in_hand_def image_iff)

lemma check_placement_derived:
  assumes "boardEnds gs = ends_of_board (board gs)"
  shows "check_placement gs mv =
          (if board gs = [] then None
           else (case outward_value (board gs) (move_side mv) of
                   None \<Rightarrow> Some InvalidSide
                 | Some v \<Rightarrow>
                     if left (move_tile mv) = v \<or> right (move_tile mv) = v then None
                     else Some TileDoesNotMatch))"
proof (cases "board gs = []")
  case True
  then show ?thesis using assms by (simp add: check_placement_def ends_of_board_def)
next
  case False
  then show ?thesis using assms
    by (cases "move_side mv")
       (auto simp: check_placement_def ends_of_board_def outward_value_def Let_def)
qed

text \<open>
  What the handler checks for a placement sent by the participant whose turn it is, on a
  state whose board ends are those of its chain. The hand searched is the hand of the
  participant that the move names in \<open>playerId\<close>; the pip values compared are those of
  the tile object inside the move. The move is rejected with \<open>TileNotInHand\<close> when no
  tile of that identity is in that hand; otherwise it is accepted on an empty board,
  whatever the side; on a non-empty board it is rejected with \<open>InvalidSide\<close> when the
  side is not one of the two ends, with \<open>TileDoesNotMatch\<close> when neither submitted pip
  value equals the value of that end, and accepted when one of them does.
\<close>

theorem placement_validation:
  assumes turn: "currentPlayerIndex gs < length (players gs)"
    and sender: "player_id (players gs ! currentPlayerIndex gs) = sid"
    and who: "findIndex (\<lambda>p. player_id p = playerId mv) (players gs) = Some pi"
    and np: "\<not> pass mv"
    and ends: "boardEnds gs = ends_of_board (board gs)"
  shows "snd (make_move gs sid mv) =
          (if \<not> in_hand (move_tile mv) (players gs ! pi) then Rejected TileNotInHand
           else if board gs = [] then Broadcast
           else (case outward_value (board gs) (move_side mv) of
                   None \<Rightarrow> Rejected InvalidSide
                 | Some v \<Rightarrow>
                     if left (move_tile mv) = v \<or> right (move_tile mv) = v then Broadcast
                     else Rejected TileDoesNotMatch))"
proof (cases "in_hand (move_tile mv) (players gs ! pi)")
  case False
  then have "findIndex (\<lambda>t. tile_id t = tile_id (move_tile mv)) (tiles (players gs ! pi)) = None"
    by (simp add: findIndex_in_hand)
  then show ?thesis using False turn sender who np by (simp add: make_move_def)
next
  case True
  then obtain ti where ti:
    "findIndex (\<lambda>t. tile_id t = tile_id (move_tile mv)) (tiles (players gs ! pi)) = Some ti"
    using findIndex_in_hand[of "move_tile mv" "players gs ! pi"] by (cases "findIndex (\<lambda>t. tile_id t = tile_id (move_tile mv)) (tiles (players gs ! pi))") auto
  have "snd (make_move gs sid mv) =
      (case check_placement gs mv of Some r \<Rightarrow> Rejected r | None \<Rightarrow> Broadcast)"
    using turn sender who np ti by (simp add: make_move_def split: option.splits)
  then show ?thesis using True
    by (simp add: check_placement_derived[OF ends] split: option.splits)
qed

text \<open>
  B, holding 1-3, against the chain 2-3: accepted on the right, where the end is 3,
  and rejected on the left, where it is 2.
\<close>

theorem placement_validation_witness:
  "in_hand (mkTile 1 3) (players after_first ! 1) \<and>
   board after_first \<noteq> [] \<and>
   outward_value (board after_first) SRight = Some 3 \<and>
   outward_value (board after_first) SLeft = Some 2 \<and>
   snd (make_move after_first ''B'' (place_move ''B'' (mkTile 1 3) SRight)) = Broadcast \<and>
   snd (make_move after_first ''B'' (place_move ''B'' (mkTile 1 3) SLeft)) =
     Rejected TileDoesNotMatch"
proof -
  have turn: "currentPlayerIndex after_first < length (players after_first)"
    by (simp add: sample_defs handler_defs)
  have sender: "player_id (players after_first ! currentPlayerIndex after_first) = ''B''"
    by (simp add: sample_defs handler_defs)
  have who: "findIndex (\<lambda>p. player_id p = playerId (place_move ''B'' (mkTile 1 3) s))
      (players after_first) = Some 1" for s
    by (simp add: sample_defs handler_defs)
  have np: "\<not> pass (place_move ''B'' (mkTile 1 3) s)" for s by (simp add: place_move_def)
  have ends: "boardEnds after_first = ends_of_board (board after_first)"
    by (simp add: sample_defs handler_defs ends_of_board_def)
  have facts: "in_hand (mkTile 1 3) (players after_first ! 1) \<and>
      board after_first \<noteq> [] \<and>
      outward_value (board after_first) SRight = Some 3 \<and>
      outward_value (board after_first) SLeft = Some 2"
    by (simp add: sample_defs handler_defs in_hand_def outward_value_def)
  have mv: "move_tile (place_move ''B'' (mkTile 1 3) s) = mkTile 1 3"
    "move_side (place_move ''B'' (mkTile 1 3) s) = s" for s
    by (simp_all add: place_move_def)
  have lr: "left (mkTile 1 3) = 1" "right (mkTile 1 3) = 3" by (simp_all add: mkTile_def)
  show ?thesis
    using placement_validation[OF turn sender who np ends, of SRight]
      placement_validation[OF turn sender who np ends, of SLeft] facts
    by (simp add: mv lr del: One_nat_def)
qed

text \<open>
  Claim C7 at \<open>after_first\<close>, where B is to move on the chain 2-3, A holds 3-4 and 5-5,
  and B holds 1-3 and 6-6. The claim asks that the tile be in the hand of the participant
  who submits the move and that one of that tile's pip values equal the end. B submits a
  move that names A and A's tile 3-4: the handler accepts it and takes the tile out of
  A's hand, though B does not hold it. B submits its own 6-6 on the right end 3: rejected
  with \<open>TileDoesNotMatch\<close>, as the claim asks; B submits the same identity with the pip
  values 3 and 5: accepted, and the board shows 6-6 as 3-5.
\<close>

theorem placement_trusts_the_move:
  "player_id (players after_first ! currentPlayerIndex after_first) = ''B'' \<and>
   map (\<lambda>p. (player_id p, map (\<lambda>t. (tile_id t, left t, right t)) (tiles p)))
     (players after_first) =
     [(''A'', [(''3-4'', 3, 4), (''5-5'', 5, 5)]), (''B'', [(''1-3'', 1, 3), (''6-6'', 6, 6)])] \<and>
   outward_value (board after_first) SRight = Some 3 \<and>
   in_hand (mkTile 3 4) (players after_first ! 0) \<and>
   \<not> in_hand (mkTile 3 4) (players after_first ! 1) \<and>
   snd (make_move after_first ''B'' (place_move ''A'' (mkTile 3 4) SRight)) = Broadcast \<and>
   map (\<lambda>p. (player_id p, map tile_id (tiles p)))
     (players (fst (make_move after_first ''B'' (place_move ''A'' (mkTile 3 4) SRight)))) =
     [(''A'', [''5-5'']), (''B'', [''1-3'', ''6-6''])] \<and>
   snd (make_move after_first ''B'' (place_move ''B'' (mkTile 6 6) SRight)) =
     Rejected TileDoesNotMatch \<and>
   in_hand relabelled_66 (players after_first ! 1) \<and>
   snd (make_move after_first ''B'' (place_move ''B'' relabelled_66 SRight)) = Broadcast \<and>
   map (\<lambda>p. (tile_id (tile p), left (tile p), right (tile p)))
     (board (fst (make_move after_first ''B'' (place_move ''B'' relabelled_66 SRight)))) =
     [(''2-3'', 2, 3), (''6-6'', 3, 5)] \<and>
   map (\<lambda>p. (player_id p, map tile_id (tiles p)))
     (players (fst (make_move after_first ''B'' (place_move ''B'' relabelled_66 SRight)))) =
     [(''A'', [''3-4'', ''5-5'']), (''B'', [''1-3''])]"
proof -
  have state: "player_id (players after_first ! currentPlayerIndex after_first) = ''B'' \<and>
      map (\<lambda>p. (player_id p, map (\<lambda>t. (tile_id t, left t, right t)) (tiles p)))
        (players after_first) =
        [(''A'', [(''3-4'', 3, 4), (''5-5'', 5, 5)]),
         (''B'', [(''1-3'', 1, 3), (''6-6'', 6, 6)])] \<and>
      outward_value (board after_first) SRight = Some 3"
    by (simp add: sample_defs handler_defs outward_value_def)
  have owner: "in_hand (mkTile 3 4) (players after_first ! 0) \<and>
      \<not> in_hand (mkTile 3 4) (players after_first ! 1) \<and>
      in_hand relabelled_66 (players after_first ! 1)"
    by (simp add: sample_defs handler_defs in_hand_def)
  have foreign: "snd (make_move after_first ''B'' (place_move ''A'' (mkTile 3 4) SRight)) =
        Broadcast \<and>
      map (\<lambda>p. (player_id p, map tile_id (tiles p)))
        (players (fst (make_move after_first ''B'' (place_move ''A'' (mkTile 3 4) SRight)))) =
        [(''A'', [''5-5'']), (''B'', [''1-3'', ''6-6''])]"
    by (simp add: sample_defs handler_defs)
  have honest: "snd (make_move after_first ''B'' (place_move ''B'' (mkTile 6 6) SRight)) =
      Rejected TileDoesNotMatch"
    by (simp add: sample_defs handler_defs)
  have forged: "snd (make_move after_first ''B'' (place_move ''B'' relabelled_66 SRight)) =
        Broadcast \<and>
      map (\<lambda>p. (tile_id (tile p), left (tile p), right (tile p)))
        (board (fst (make_move after_first ''B'' (place_move ''B'' relabelled_66 SRight)))) =
        [(''2-3'', 2, 3), (''6-6'', 3, 5)] \<and>
      map (\<lambda>p. (player_id p, map tile_id (tiles p)))
        (players (fst (make_move after_first ''B'' (place_move ''B'' relabelled_66 SRight)))) =
        [(''A'', [''3-4'', ''5-5'']), (''B'', [''1-3''])]"
    by (simp add: sample_defs handler_defs)
  show ?thesis using state owner foreign honest forged by blast
qed

section \<open>The chain and its ends\<close>

lemma chain_matches_Cons:
  "chain_matches (p # b) \<longleftrightarrow>
     (b = [] \<or> right (tile p) = left (tile (hd b))) \<and> chain_matches b"
  by (cases b) auto

lemma chain_matches_snoc:
  "chain_matches (b @ [p]) \<longleftrightarrow>
     chain_matches b \<and> (b = [] \<or> right (tile (last b)) = left (tile p))"
proof (induction b rule: chain_matches.induct)
  case 1
  then show ?case by simp
next
  case (2 q)
  then show ?case by simp
next
  case (3 q r rest)
  then show ?case by auto
qed

lemma ends_find_right:
  "b \<noteq> [] \<Longrightarrow> find (\<lambda>e. end_side e = SRight) (ends_of_board b) =
     Some \<lparr>end_value = right (tile (last b)), end_position = position (last b),
           end_side = SRight\<rparr>"
  by (simp add: ends_of_board_def)

lemma ends_find_left:
  "b \<noteq> [] \<Longrightarrow> find (\<lambda>e. end_side e = SLeft) (ends_of_board b) =
     Some \<lparr>end_value = left (tile (hd b)), end_position = position (hd b),
           end_side = SLeft\<rparr>"
  by (simp add: ends_of_board_def)

lemma make_move_invariant:
  assumes acc: "make_move gs sid mv = (gs', Broadcast)"
    and chain: "chain_matches (board gs)"
    and ends: "boardEnds gs = ends_of_board (board gs)"
  shows "chain_matches (board gs') \<and> boardEnds gs' = ends_of_board (board gs')"
proof (cases "pass mv")
  case True
  then have "gs' = pass_turn gs" using make_move_pass[OF acc] by simp
  then show ?thesis using chain ends by (simp add: pass_turn_def Let_def)
next
  case False
  obtain pi ti where chk: "check_placement gs mv = None"
    and gs': "gs' = place_tile gs pi ti mv"
    using make_move_place[OF acc False] by blast
  have e: "boardEnds gs' = ends_of_board (board gs')" by (simp add: gs' place_tile_ends)
  have "chain_matches (board gs')"
  proof (cases "board gs = []")
    case True
    then show ?thesis by (simp add: gs' place_tile_board)
  next
    case ne: False
    show ?thesis
    proof (cases "move_side mv")
      case SLeft
      have f: "find (\<lambda>e. end_side e = move_side mv) (boardEnds gs) =
          Some \<lparr>end_value = left (tile (hd (board gs))), end_position = position (hd (board gs)),
                end_side = SLeft\<rparr>"
        using ne SLeft by (simp add: ends ends_find_left)
      have fits: "left (move_tile mv) = left (tile (hd (board gs))) \<or>
          right (move_tile mv) = left (tile (hd (board gs)))"
        using check_placement_side[OF chk f] by simp
      have "right (tileToPlace gs mv) = left (tile (hd (board gs)))"
        using tileToPlace_left(1)[OF ne SLeft f] fits by simp
      then show ?thesis using SLeft chain
        by (simp add: gs' place_tile_board chain_matches_Cons)
    next
      case SRight
      have f: "find (\<lambda>e. end_side e = move_side mv) (boardEnds gs) =
          Some \<lparr>end_value = right (tile (last (board gs))),
                end_position = position (last (board gs)), end_side = SRight\<rparr>"
        using ne SRight by (simp add: ends ends_find_right)
      have fits: "left (move_tile mv) = right (tile (last (board gs))) \<or>
          right (move_tile mv) = right (tile (last (board gs)))"
        using check_placement_side[OF chk f] by simp
      have "left (tileToPlace gs mv) = right (tile (last (board gs)))"
        using tileToPlace_right(1)[OF ne SRight f] fits by simp
      then show ?thesis using SRight chain
        by (simp add: gs' place_tile_board chain_matches_snoc)
    next
      case STop
      then show ?thesis using chk ne
        by (simp add: check_placement_derived[OF ends] outward_value_def)
    next
      case SBottom
      then show ?thesis using chk ne
        by (simp add: check_placement_derived[OF ends] outward_value_def)
    qed
  qed
  then show ?thesis using e by simp
qed

lemma draw_tile_board:
  "board (fst (draw_tile gs sid)) = board gs \<and> boardEnds (fst (draw_tile gs sid)) = boardEnds gs"
  by (simp add: draw_tile_def Let_def)

lemma route_draw_tile_board:
  "board (fst (route_draw_tile gs sid)) = board gs \<and>
   boardEnds (fst (route_draw_tile gs sid)) = boardEnds gs"
  by (simp add: route_draw_tile_def Let_def)

lemma handle_invariant:
  assumes acc: "handle gs r = (gs', Broadcast)"
    and chain: "chain_matches (board gs)"
    and ends: "boardEnds gs = ends_of_board (board gs)"
  shows "chain_matches (board gs') \<and> boardEnds gs' = ends_of_board (board gs')"
proof (cases r)
  case (MakeMove sid mv)
  then show ?thesis using make_move_invariant[of gs sid mv gs'] acc chain ends by simp
next
  case (DrawTile sid)
  then have "gs' = fst (draw_tile gs sid)" using acc by simp
  then show ?thesis using draw_tile_board[of gs sid] chain ends by simp
next
  case (RouteDrawTile sid)
  then have "gs' = fst (route_draw_tile gs sid)" using acc by simp
  then show ?thesis using route_draw_tile_board[of gs sid] chain ends by simp
qed

text \<open>
  Claim C2. In every state reached from an empty board by accepted requests, the
  touching values of adjacent placed tiles are equal, and the board ends are exactly the
  ends rebuilt from the chain: the left value of the leftmost tile and the right value of
  the rightmost tile (and no ends on an empty board).
\<close>

theorem chain_and_ends_invariant:
  assumes "reachable gs"
  shows "chain_matches (board gs) \<and> boardEnds gs = ends_of_board (board gs)"
  using assms
proof (induction rule: reachable.induct)
  case (empty_board gs)
  then show ?case by (simp add: ends_of_board_def)
next
  case (accepted gs r gs')
  then show ?case using handle_invariant by blast
qed

text \<open>
  The match after A's 2-3 and B's 1-3: the chain is 2-3, 3-1 with the ends 2 and 1.
\<close>

theorem chain_and_ends_invariant_witness:
  "reachable after_second \<and>
   chain_matches (board after_second) \<and>
   boardEnds after_second = ends_of_board (board after_second) \<and>
   map (\<lambda>p. (left (tile p), right (tile p))) (board after_second) = [(2, 3), (3, 1)] \<and>
   map (\<lambda>e. (end_side e, end_value e)) (boardEnds after_second) = [(SLeft, 2), (SRight, 1)]"
proof -
  have r0: "reachable open_match"
    by (rule reachable.empty_board) (simp_all add: sample_defs)
  have b1: "snd (make_move open_match ''A'' (place_move ''A'' (mkTile 2 3) SLeft)) = Broadcast"
    by (simp add: sample_defs handler_defs)
  have h1: "handle open_match (MakeMove ''A'' (place_move ''A'' (mkTile 2 3) SLeft)) =
      (after_first, Broadcast)"
    using b1 unfolding after_first_def by (simp add: prod_eq_iff)
  have r1: "reachable after_first" using reachable.accepted[OF r0 h1] .
  have b2: "snd (make_move after_first ''B'' (place_move ''B'' (mkTile 1 3) SRight)) = Broadcast"
    by (simp add: sample_defs handler_defs)
  have h2: "handle after_first (MakeMove ''B'' (place_move ''B'' (mkTile 1 3) SRight)) =
      (after_second, Broadcast)"
    using b2 unfolding after_second_def by (simp add: prod_eq_iff)
  have r2: "reachable after_second" using reachable.accepted[OF r1 h2] .
  have vals: "map (\<lambda>p. (left (tile p), right (tile p))) (board after_second) = [(2, 3), (3, 1)] \<and>
      map (\<lambda>e. (end_side e, end_value e)) (boardEnds after_second) = [(SLeft, 2), (SRight, 1)]"
    by (simp add: sample_defs handler_defs)
  show ?thesis using chain_and_ends_invariant[OF r2] r2 vals by simp
qed

section \<open>Drawing from the boneyard\<close>

lemma draw_tile_accepted_iff:
  "snd (draw_tile gs sid) = Broadcast \<longleftrightarrow>
     currentPlayerIndex gs < length (players gs) \<and>
     player_id (players gs ! currentPlayerIndex gs) = sid \<and> boneyard gs \<noteq> []"
  by (simp add: draw_tile_def Let_def)

lemma route_draw_tile_accepted_iff:
  "snd (route_draw_tile gs sid) = Broadcast \<longleftrightarrow>
     currentPlayerIndex gs < length (players gs) \<and>
     player_id (players gs ! currentPlayerIndex gs) = sid \<and> boneyard gs \<noteq> []"
  by (simp add: route_draw_tile_def Let_def)

text \<open>
  Claim C5, as amended. Either \<open>draw-tile\<close> handler accepts a draw exactly when the
  requester is the participant whose turn it is and the boneyard is not empty. A draw by
  that participant on an empty boneyard is rejected with \<open>NoTilesToDraw\<close>, a draw by
  anyone else with \<open>NotYourTurn\<close>, and the state stays as it was. Whether the
  participant holds a legal placement plays no part.
\<close>

theorem draw_accepted_iff:
  "(snd (draw_tile gs sid) = Broadcast \<longleftrightarrow>
      currentPlayerIndex gs < length (players gs) \<and>
      player_id (players gs ! currentPlayerIndex gs) = sid \<and> boneyard gs \<noteq> []) \<and>
   (snd (route_draw_tile gs sid) = Broadcast \<longleftrightarrow>
      currentPlayerIndex gs < length (players gs) \<and>
      player_id (players gs ! currentPlayerIndex gs) = sid \<and> boneyard gs \<noteq> []) \<and>
   (currentPlayerIndex gs < length (players gs) \<and>
    player_id (players gs ! currentPlayerIndex gs) = sid \<and> boneyard gs = [] \<longrightarrow>
      draw_tile gs sid = (gs, Rejected NoTilesToDraw) \<and>
      route_draw_tile gs sid = (gs, Rejected NoTilesToDraw)) \<and>
   (currentPlayerIndex gs < length (players gs) \<and>
    player_id (players gs ! currentPlayerIndex gs) \<noteq> sid \<longrightarrow>
      draw_tile gs sid = (gs, Rejected NotYourTurn) \<and>
      route_draw_tile gs sid = (gs, Rejected NotYourTurn))"
proof -
  have empty: "currentPlayerIndex gs < length (players gs) \<and>
      player_id (players gs ! currentPlayerIndex gs) = sid \<and> boneyard gs = [] \<Longrightarrow>
      draw_tile gs sid = (gs, Rejected NoTilesToDraw) \<and>
      route_draw_tile gs sid = (gs, Rejected NoTilesToDraw)"
    by (simp add: draw_tile_def route_draw_tile_def)
  have other: "currentPlayerIndex gs < length (players gs) \<and>
      player_id (players gs ! currentPlayerIndex gs) \<noteq> sid \<Longrightarrow>
      draw_tile gs sid = (gs, Rejected NotYourTurn) \<and>
      route_draw_tile gs sid = (gs, Rejected NotYourTurn)"
    by (simp add: draw_tile_def route_draw_tile_def)
  show ?thesis
    using draw_tile_accepted_iff[of gs sid] route_draw_tile_accepted_iff[of gs sid] empty other
    by blast
qed

text \<open>
  An accepted draw, a draw out of turn and a draw on an empty boneyard.
\<close>

theorem draw_accepted_iff_witness:
  "currentPlayerIndex after_first < length (players after_first) \<and>
   player_id (players after_first ! currentPlayerIndex after_first) = ''B'' \<and>
   boneyard after_first \<noteq> [] \<and>
   snd (draw_tile after_first ''B'') = Broadcast \<and>
   snd (route_draw_tile after_first ''B'') = Broadcast \<and>
   draw_tile after_first ''A'' = (after_first, Rejected NotYourTurn) \<and>
   route_draw_tile after_first ''A'' = (after_first, Rejected NotYourTurn) \<and>
   boneyard tied_match = [] \<and>
   draw_tile tied_match ''B'' = (tied_match, Rejected NoTilesToDraw) \<and>
   route_draw_tile tied_match ''B'' = (tied_match, Rejected NoTilesToDraw)"
proof -
  have a: "currentPlayerIndex after_first < length (players after_first) \<and>
      player_id (players after_first ! currentPlayerIndex after_first) = ''B'' \<and>
      boneyard after_first \<noteq> []"
    by (simp add: sample_defs handler_defs)
  have t: "currentPlayerIndex tied_match < length (players tied_match) \<and>
      player_id (players tied_match ! currentPlayerIndex tied_match) = ''B'' \<and>
      boneyard tied_match = []"
    by (simp add: sample_defs)
  show ?thesis
    using draw_accepted_iff[of after_first "''B''"] draw_accepted_iff[of after_first "''A''"]
      draw_accepted_iff[of tied_match "''B''"] a t
    by simp
qed

text \<open>
  Claim C5 as stated fails: B, to move on the chain 2-3, holds 1-3, which the move
  handler accepts on the right; both draw handlers accept B's draw all the same.
\<close>

theorem draw_with_legal_placement:
  "player_id (players after_first ! currentPlayerIndex after_first) = ''B'' \<and>
   canPlayerMove (players after_first ! currentPlayerIndex after_first) (boardEnds after_first) \<and>
   snd (make_move after_first ''B'' (place_move ''B'' (mkTile 1 3) SRight)) = Broadcast \<and>
   snd (draw_tile after_first ''B'') = Broadcast \<and>
   snd (route_draw_tile after_first ''B'') = Broadcast \<and>
   map tile_id (tiles (players (fst (draw_tile after_first ''B'')) ! 1)) =
     [''1-3'', ''6-6'', ''0-0'']"
  by (simp add: sample_defs handler_defs)

lemma route_draw_tile_turn:
  assumes "route_draw_tile gs sid = (gs', Broadcast)"
  shows "currentPlayerIndex gs' =
          (if canPlayerMove (players gs' ! currentPlayerIndex gs) (boardEnds gs)
           then currentPlayerIndex gs
           else (currentPlayerIndex gs + 1) mod length (players gs))"
  using assms by (auto simp: route_draw_tile_def Let_def split: if_splits)

lemma draw_tile_turn:
  assumes "draw_tile gs sid = (gs', Broadcast)"
  shows "currentPlayerIndex gs' = currentPlayerIndex gs"
  using assms by (auto simp: draw_tile_def Let_def split: if_splits)

text \<open>
  Claim C6 at \<open>stuck_match\<close>. A holds 6-6 against the ends 2 and 3 and draws 0-0:
  one tile has moved from the boneyard to A's hand and A still cannot place. The handler
  of server.mjs leaves the turn with A (index 0); the handler of route.ts, on the same
  state and request, moves it on to index 1.
\<close>

theorem server_draw_keeps_turn:
  "snd (draw_tile stuck_match ''A'') = Broadcast \<and>
   currentPlayerIndex stuck_match = 0 \<and>
   map tile_id (tiles (players (fst (draw_tile stuck_match ''A'')) ! 0)) = [''6-6'', ''0-0''] \<and>
   map tile_id (boneyard (fst (draw_tile stuck_match ''A''))) = [''0-1''] \<and>
   map end_value (boardEnds (fst (draw_tile stuck_match ''A''))) = [2, 3] \<and>
   \<not> canPlayerMove (players (fst (draw_tile stuck_match ''A'')) ! 0)
        (boardEnds (fst (draw_tile stuck_match ''A''))) \<and>
   currentPlayerIndex (fst (draw_tile stuck_match ''A'')) = 0 \<and>
   snd (route_draw_tile stuck_match ''A'') = Broadcast \<and>
   currentPlayerIndex (fst (route_draw_tile stuck_match ''A'')) = 1"
  by (simp add: sample_defs handler_defs)

section \<open>Conservation of the tiles\<close>

lemma sum_list_map_update:
  fixes f :: "'a \<Rightarrow> 'b multiset"
  shows "i < length xs \<Longrightarrow>
    sum_list (map f (xs[i := y])) + f (xs ! i) = sum_list (map f xs) + f y"
proof (induction xs arbitrary: i)
  case Nil
  then show ?case by simp
next
  case (Cons x xs)
  show ?case
  proof (cases i)
    case 0
    then show ?thesis by (simp add: ac_simps)
  next
    case (Suc k)
    then have "sum_list (map f (xs[k := y])) + f (xs ! k) = sum_list (map f xs) + f y"
      using Cons.IH[of k] Cons.prems by simp
    then show ?thesis using Suc by (simp add: add.assoc)
  qed
qed

lemma hands_after_update:
  assumes "i < length ps" and "hand_ids (ps ! i) = hand_ids p' + d"
  shows "sum_list (map hand_ids ps) = sum_list (map hand_ids (ps[i := p'])) + d"
proof -
  have "sum_list (map hand_ids (ps[i := p'])) + (hand_ids p' + d) =
        sum_list (map hand_ids ps) + hand_ids p'"
    using sum_list_map_update[OF assms(1), of hand_ids p'] assms(2) by simp
  then have "(sum_list (map hand_ids (ps[i := p'])) + d) + hand_ids p' =
        sum_list (map hand_ids ps) + hand_ids p'"
    by (simp only: ac_simps)
  then show ?thesis by (simp only: add_right_cancel)
qed

lemma splice1_ids:
  assumes i: "i < length ts"
  shows "mset (map tile_id ts) = mset (map tile_id (splice1 i ts)) + {#tile_id (ts ! i)#}"
proof -
  have "mset (map tile_id ts) = mset (map tile_id (take i ts @ ts ! i # drop (Suc i) ts))"
    using id_take_nth_drop[OF i] by simp
  then show ?thesis by (simp add: splice1_def)
qed

lemma place_tile_boneyard: "boneyard (place_tile gs pi ti mv) = boneyard gs"
  by (simp add: place_tile_def Let_def)

lemma place_tile_board_ids:
  "board_ids (place_tile gs pi ti mv) = board_ids gs + {#tile_id (move_tile mv)#}"
  by (simp add: board_ids_def place_tile_board tileToPlace_id)

text \<open>
  What an accepted placement and an accepted draw do to the hands, the board and the
  boneyard.
\<close>

lemma make_move_place_effect:
  assumes acc: "make_move gs sid mv = (gs', Broadcast)" and np: "\<not> pass mv"
  shows "\<exists>pi p'. pi < length (players gs) \<and>
           player_id (players gs ! pi) = playerId mv \<and>
           players gs' = (players gs)[pi := p'] \<and>
           hand_ids (players gs ! pi) = hand_ids p' + {#tile_id (move_tile mv)#} \<and>
           board_ids gs' = board_ids gs + {#tile_id (move_tile mv)#} \<and>
           boneyard gs' = boneyard gs"
proof -
  obtain pi ti where
    f1: "findIndex (\<lambda>p. player_id p = playerId mv) (players gs) = Some pi" and
    f2: "findIndex (\<lambda>t. tile_id t = tile_id (move_tile mv)) (tiles (players gs ! pi)) = Some ti"
    and eq: "gs' = place_tile gs pi ti mv"
    using make_move_place[OF acc np] by blast
  define p' where "p' = (players gs ! pi)\<lparr>tiles := splice1 ti (tiles (players gs ! pi))\<rparr>"
  have pi: "pi < length (players gs)" and pid: "player_id (players gs ! pi) = playerId mv"
    using findIndex_Some[OF f1] by simp_all
  have ti: "ti < length (tiles (players gs ! pi))"
    and same: "tile_id (tiles (players gs ! pi) ! ti) = tile_id (move_tile mv)"
    using findIndex_Some[OF f2] by simp_all
  have hand: "hand_ids (players gs ! pi) = hand_ids p' + {#tile_id (move_tile mv)#}"
    using splice1_ids[OF ti] same by (simp add: hand_ids_def p'_def)
  have upd: "players gs' = (players gs)[pi := p']"
    unfolding eq p'_def by (rule place_tile_players)
  have brd: "board_ids gs' = board_ids gs + {#tile_id (move_tile mv)#}"
    unfolding eq by (rule place_tile_board_ids)
  have yard: "boneyard gs' = boneyard gs" unfolding eq by (rule place_tile_boneyard)
  show ?thesis using pi pid hand upd brd yard by blast
qed

lemma draw_tile_effect:
  assumes "draw_tile gs sid = (gs', Broadcast)"
  shows "\<exists>t p'. boneyard gs = boneyard gs' @ [t] \<and>
           currentPlayerIndex gs < length (players gs) \<and>
           players gs' = (players gs)[currentPlayerIndex gs := p'] \<and>
           tiles p' = tiles (players gs ! currentPlayerIndex gs) @ [t] \<and>
           board gs' = board gs"
proof -
  have ok: "currentPlayerIndex gs < length (players gs)" and ne: "boneyard gs \<noteq> []"
    using assms by (auto simp: draw_tile_def split: if_splits)
  define p' where "p' = (players gs ! currentPlayerIndex gs)
      \<lparr>tiles := tiles (players gs ! currentPlayerIndex gs) @ [last (boneyard gs)]\<rparr>"
  have eq: "gs' = gs\<lparr>boneyard := butlast (boneyard gs),
      players := (players gs)[currentPlayerIndex gs := p']\<rparr>"
    using assms ok ne by (simp add: draw_tile_def Let_def p'_def split: if_splits)
  have y: "boneyard gs = boneyard gs' @ [last (boneyard gs)]" using ne by (simp add: eq)
  have u: "players gs' = (players gs)[currentPlayerIndex gs := p']" by (simp add: eq)
  have t: "tiles p' = tiles (players gs ! currentPlayerIndex gs) @ [last (boneyard gs)]"
    by (simp add: p'_def)
  have b: "board gs' = board gs" by (simp add: eq)
  show ?thesis using y ok u t b by blast
qed

lemma route_draw_tile_effect:
  assumes "route_draw_tile gs sid = (gs', Broadcast)"
  shows "\<exists>t p'. boneyard gs = boneyard gs' @ [t] \<and>
           currentPlayerIndex gs < length (players gs) \<and>
           players gs' = (players gs)[currentPlayerIndex gs := p'] \<and>
           tiles p' = tiles (players gs ! currentPlayerIndex gs) @ [t] \<and>
           board gs' = board gs"
proof -
  have ok: "currentPlayerIndex gs < length (players gs)" and ne: "boneyard gs \<noteq> []"
    using assms by (auto simp: route_draw_tile_def split: if_splits)
  define p' where "p' = (players gs ! currentPlayerIndex gs)
      \<lparr>tiles := tiles (players gs ! currentPlayerIndex gs) @ [last (boneyard gs)]\<rparr>"
  define gs1 where "gs1 = gs\<lparr>boneyard := butlast (boneyard gs),
      players := (players gs)[currentPlayerIndex gs := p']\<rparr>"
  have eq: "gs' = gs1 \<or> gs' = gs1\<lparr>currentPlayerIndex :=
      (currentPlayerIndex gs1 + 1) mod length (players gs1)\<rparr>"
    using assms ok ne by (simp add: route_draw_tile_def Let_def p'_def gs1_def split: if_splits)
  have y: "boneyard gs = boneyard gs' @ [last (boneyard gs)]"
    using ne eq by (auto simp: gs1_def)
  have u: "players gs' = (players gs)[currentPlayerIndex gs := p']"
    using eq by (auto simp: gs1_def)
  have t: "tiles p' = tiles (players gs ! currentPlayerIndex gs) @ [last (boneyard gs)]"
    by (simp add: p'_def)
  have b: "board gs' = board gs" using eq by (auto simp: gs1_def)
  show ?thesis using y ok u t b by blast
qed

lemma make_move_unaccepted:
  "snd (make_move gs sid mv) \<noteq> Broadcast \<Longrightarrow> fst (make_move gs sid mv) = gs"
  by (auto simp: make_move_def split: if_splits option.splits)

lemma draw_tile_unaccepted:
  "snd (draw_tile gs sid) \<noteq> Broadcast \<Longrightarrow> fst (draw_tile gs sid) = gs"
  by (auto simp: draw_tile_def Let_def split: if_splits)

lemma route_draw_tile_unaccepted:
  "snd (route_draw_tile gs sid) \<noteq> Broadcast \<Longrightarrow> fst (route_draw_tile gs sid) = gs"
  by (auto simp: route_draw_tile_def Let_def split: if_splits)

lemma make_move_conserves: "all_tile_ids (fst (make_move gs sid mv)) = all_tile_ids gs"
proof (cases "snd (make_move gs sid mv) = Broadcast")
  case False
  then show ?thesis by (simp add: make_move_unaccepted)
next
  case True
  define gs' where "gs' = fst (make_move gs sid mv)"
  have acc: "make_move gs sid mv = (gs', Broadcast)"
    unfolding gs'_def using True by (metis prod.collapse)
  show ?thesis
  proof (cases "pass mv")
    case True
    then have "gs' = pass_turn gs" using make_move_pass(1)[OF acc] by simp
    then have "all_tile_ids gs' = all_tile_ids gs"
      by (simp add: pass_turn_def Let_def all_tile_ids_def board_ids_def boneyard_ids_def)
    then show ?thesis by (simp add: gs'_def)
  next
    case False
    obtain pi p' where pi: "pi < length (players gs)"
      and upd: "players gs' = (players gs)[pi := p']"
      and hand: "hand_ids (players gs ! pi) = hand_ids p' + {#tile_id (move_tile mv)#}"
      and brd: "board_ids gs' = board_ids gs + {#tile_id (move_tile mv)#}"
      and yard: "boneyard gs' = boneyard gs"
      using make_move_place_effect[OF acc False] by blast
    have hs: "sum_list (map hand_ids (players gs)) =
        sum_list (map hand_ids (players gs')) + {#tile_id (move_tile mv)#}"
      unfolding upd using hands_after_update[OF pi hand] .
    have "all_tile_ids gs' =
        sum_list (map hand_ids (players gs')) + (board_ids gs + {#tile_id (move_tile mv)#}) +
        boneyard_ids gs"
      by (simp add: all_tile_ids_def brd boneyard_ids_def yard)
    also have "\<dots> = (sum_list (map hand_ids (players gs')) + {#tile_id (move_tile mv)#}) +
        board_ids gs + boneyard_ids gs"
      by (simp only: ac_simps)
    also have "\<dots> = all_tile_ids gs" by (simp only: hs[symmetric] all_tile_ids_def)
    finally show ?thesis by (simp add: gs'_def)
  qed
qed

lemma one_tile_drawn_conserves:
  assumes y: "boneyard gs = boneyard gs' @ [t]"
    and i: "i < length (players gs)"
    and u: "players gs' = (players gs)[i := p']"
    and h: "tiles p' = tiles (players gs ! i) @ [t]"
    and b: "board gs' = board gs"
  shows "all_tile_ids gs' = all_tile_ids gs"
proof -
  have hp: "hand_ids p' = hand_ids (players gs ! i) + {#tile_id t#}"
    by (simp add: hand_ids_def h)
  have "sum_list (map hand_ids ((players gs)[i := p'])) + hand_ids (players gs ! i) =
        sum_list (map hand_ids (players gs)) + hand_ids p'"
    using sum_list_map_update[OF i] .
  then have "sum_list (map hand_ids (players gs')) + hand_ids (players gs ! i) =
        (sum_list (map hand_ids (players gs)) + {#tile_id t#}) + hand_ids (players gs ! i)"
    unfolding u hp by (simp only: ac_simps)
  then have hs: "sum_list (map hand_ids (players gs')) =
        sum_list (map hand_ids (players gs)) + {#tile_id t#}"
    by (simp only: add_right_cancel)
  have yi: "boneyard_ids gs = boneyard_ids gs' + {#tile_id t#}"
    by (simp add: boneyard_ids_def y)
  have bi: "board_ids gs' = board_ids gs" by (simp add: board_ids_def b)
  have "all_tile_ids gs = sum_list (map hand_ids (players gs)) + board_ids gs +
      (boneyard_ids gs' + {#tile_id t#})"
    by (simp only: all_tile_ids_def yi)
  also have "\<dots> = (sum_list (map hand_ids (players gs)) + {#tile_id t#}) + board_ids gs +
      boneyard_ids gs'"
    by (simp only: ac_simps)
  also have "\<dots> = all_tile_ids gs'" by (simp only: hs[symmetric] all_tile_ids_def bi)
  finally show ?thesis by simp
qed

lemma draw_tile_conserves: "all_tile_ids (fst (draw_tile gs sid)) = all_tile_ids gs"
proof (cases "snd (draw_tile gs sid) = Broadcast")
  case False
  then show ?thesis by (simp add: draw_tile_unaccepted)
next
  case True
  then have acc: "draw_tile gs sid = (fst (draw_tile gs sid), Broadcast)"
    by (metis prod.collapse)
  show ?thesis using draw_tile_effect[OF acc] one_tile_drawn_conserves by blast
qed

lemma route_draw_tile_conserves: "all_tile_ids (fst (route_draw_tile gs sid)) = all_tile_ids gs"
proof (cases "snd (route_draw_tile gs sid) = Broadcast")
  case False
  then show ?thesis by (simp add: route_draw_tile_unaccepted)
next
  case True
  then have acc: "route_draw_tile gs sid = (fst (route_draw_tile gs sid), Broadcast)"
    by (metis prod.collapse)
  show ?thesis using route_draw_tile_effect[OF acc] one_tile_drawn_conserves by blast
qed

lemma handle_conserves: "all_tile_ids (fst (handle gs r)) = all_tile_ids gs"
  by (cases r) (simp_all add: make_move_conserves draw_tile_conserves route_draw_tile_conserves)

lemma run_conserves: "all_tile_ids (run gs rs) = all_tile_ids gs"
  by (induction rs arbitrary: gs) (simp_all add: handle_conserves)

text \<open>
  Claim C10. Over any sequence of requests the identities of the tiles in all hands, on
  the board and in the boneyard stay the same collection, counted with multiplicity. An
  accepted pass leaves hands, board and boneyard alone. An accepted placement changes one
  hand, that of the participant the move names, which loses one tile of the identity
  played, while the board gains one tile of that identity and the boneyard stays. An
  accepted draw, in either handler, takes the last tile off the boneyard and appends it
  to the hand of the participant to move, with every other hand and the board unchanged.
\<close>

theorem tiles_conserved:
  "all_tile_ids (run gs rs) = all_tile_ids gs \<and>
   (make_move gs sid mv = (gs', Broadcast) \<and> pass mv \<longrightarrow>
      players gs' = players gs \<and> board gs' = board gs \<and> boneyard gs' = boneyard gs) \<and>
   (make_move gs sid mv = (gs', Broadcast) \<and> \<not> pass mv \<longrightarrow>
      (\<exists>pi p'. pi < length (players gs) \<and>
          player_id (players gs ! pi) = playerId mv \<and>
          players gs' = (players gs)[pi := p'] \<and>
          hand_ids (players gs ! pi) = hand_ids p' + {#tile_id (move_tile mv)#} \<and>
          board_ids gs' = board_ids gs + {#tile_id (move_tile mv)#} \<and>
          boneyard gs' = boneyard gs)) \<and>
   (draw_tile gs sid = (gs', Broadcast) \<or> route_draw_tile gs sid = (gs', Broadcast) \<longrightarrow>
      (\<exists>t p'. boneyard gs = boneyard gs' @ [t] \<and>
          currentPlayerIndex gs < length (players gs) \<and>
          players gs' = (players gs)[currentPlayerIndex gs := p'] \<and>
          tiles p' = tiles (players gs ! currentPlayerIndex gs) @ [t] \<and>
          board gs' = board gs))"
proof -
  have passing: "make_move gs sid mv = (gs', Broadcast) \<and> pass mv \<longrightarrow>
      players gs' = players gs \<and> board gs' = board gs \<and> boneyard gs' = boneyard gs"
  proof
    assume a: "make_move gs sid mv = (gs', Broadcast) \<and> pass mv"
    then have "gs' = pass_turn gs" using make_move_pass(1) by blast
    then show "players gs' = players gs \<and> board gs' = board gs \<and> boneyard gs' = boneyard gs"
      by (simp add: pass_turn_def Let_def)
  qed
  have placing: "make_move gs sid mv = (gs', Broadcast) \<and> \<not> pass mv \<longrightarrow>
      (\<exists>pi p'. pi < length (players gs) \<and>
          player_id (players gs ! pi) = playerId mv \<and>
          players gs' = (players gs)[pi := p'] \<and>
          hand_ids (players gs ! pi) = hand_ids p' + {#tile_id (move_tile mv)#} \<and>
          board_ids gs' = board_ids gs + {#tile_id (move_tile mv)#} \<and>
          boneyard gs' = boneyard gs)"
    using make_move_place_effect[of gs sid mv gs'] by blast
  have drawing: "draw_tile gs sid = (gs', Broadcast) \<or>
      route_draw_tile gs sid = (gs', Broadcast) \<longrightarrow>
      (\<exists>t p'. boneyard gs = boneyard gs' @ [t] \<and>
          currentPlayerIndex gs < length (players gs) \<and>
          players gs' = (players gs)[currentPlayerIndex gs := p'] \<and>
          tiles p' = tiles (players gs ! currentPlayerIndex gs) @ [t] \<and>
          board gs' = board gs)"
    using draw_tile_effect[of gs sid gs'] route_draw_tile_effect[of gs sid gs'] by blast
  show ?thesis using run_conserves[of gs rs] passing placing drawing by (intro conjI)
qed

text \<open>
  Two placements, a draw and a pass from \<open>open_match\<close>, with the first placement and
  the draw looked at on their own.
\<close>

theorem tiles_conserved_witness:
  "all_tile_ids
     (run open_match
        [MakeMove ''A'' (place_move ''A'' (mkTile 2 3) SLeft),
         MakeMove ''B'' (place_move ''B'' (mkTile 1 3) SRight),
         DrawTile ''A'', MakeMove ''A'' (pass_move ''A'')]) = all_tile_ids open_match \<and>
   make_move open_match ''A'' (place_move ''A'' (mkTile 2 3) SLeft) = (after_first, Broadcast) \<and>
   board_ids after_first = board_ids open_match + {#''2-3''#} \<and>
   boneyard after_first = boneyard open_match \<and>
   map tile_id (tiles (players open_match ! 0)) = [''2-3'', ''3-4'', ''5-5''] \<and>
   map tile_id (tiles (players after_first ! 0)) = [''3-4'', ''5-5''] \<and>
   snd (draw_tile after_second ''A'') = Broadcast \<and>
   map tile_id (boneyard after_second) = [''0-1'', ''0-0''] \<and>
   map tile_id (boneyard (fst (draw_tile after_second ''A''))) = [''0-1''] \<and>
   map tile_id (tiles (players (fst (draw_tile after_second ''A'')) ! 0)) =
     [''3-4'', ''5-5'', ''0-0''] \<and>
   board (fst (draw_tile after_second ''A'')) = board after_second"
proof -
  have all: "all_tile_ids
     (run open_match
        [MakeMove ''A'' (place_move ''A'' (mkTile 2 3) SLeft),
         MakeMove ''B'' (place_move ''B'' (mkTile 1 3) SRight),
         DrawTile ''A'', MakeMove ''A'' (pass_move ''A'')]) = all_tile_ids open_match"
    using tiles_conserved[of open_match] by blast
  have b1: "snd (make_move open_match ''A'' (place_move ''A'' (mkTile 2 3) SLeft)) = Broadcast"
    by (simp add: sample_defs handler_defs)
  have h1: "make_move open_match ''A'' (place_move ''A'' (mkTile 2 3) SLeft) =
      (after_first, Broadcast)"
    using b1 unfolding after_first_def by (simp add: prod_eq_iff)
  have np: "\<not> pass (place_move ''A'' (mkTile 2 3) SLeft)" by (simp add: place_move_def)
  have id23: "tile_id (move_tile (place_move ''A'' (mkTile 2 3) SLeft)) = ''2-3''"
    by (simp add: place_move_def mkTile_def digit_char_def)
  have placed: "board_ids after_first = board_ids open_match + {#''2-3''#} \<and>
      boneyard after_first = boneyard open_match"
    using tiles_conserved[of open_match _ "''A''" "place_move ''A'' (mkTile 2 3) SLeft" after_first]
      h1 np unfolding id23 by blast
  have hands: "map tile_id (tiles (players open_match ! 0)) = [''2-3'', ''3-4'', ''5-5''] \<and>
      map tile_id (tiles (players after_first ! 0)) = [''3-4'', ''5-5'']"
    by (simp add: sample_defs handler_defs)
  have d: "snd (draw_tile after_second ''A'') = Broadcast \<and>
      map tile_id (boneyard after_second) = [''0-1'', ''0-0''] \<and>
      map tile_id (boneyard (fst (draw_tile after_second ''A''))) = [''0-1''] \<and>
      map tile_id (tiles (players (fst (draw_tile after_second ''A'')) ! 0)) =
        [''3-4'', ''5-5'', ''0-0'']"
    by (simp add: sample_defs handler_defs)
  have hd: "draw_tile after_second ''A'' = (fst (draw_tile after_second ''A''), Broadcast)"
    using d by (simp add: prod_eq_iff)
  have brd: "board (fst (draw_tile after_second ''A'')) = board after_second"
    using tiles_conserved[of after_second _ "''A''" _ "fst (draw_tile after_second ''A'')"] hd
    by blast
  show ?thesis using all h1 placed hands d brd by (intro conjI) simp_all
qed

end
